theory Spec2Isabelle
  imports Complex_Main "HOL-Library.Word"
begin

section \<open>JavaScript values and strings\<close>

text \<open>
  A JavaScript string is a sequence of 16-bit code units and \<open>.length\<close> counts them, so a
  string is a list of 16-bit words and its length is the length of the list. ASCII literals
  of the source are written through \<open>js\<close>; the Japanese literals are given by their code
  units.
\<close>

type_synonym jsstring = "16 word list"

definition js :: "string \<Rightarrow> jsstring" where
  "js s = map (\<lambda>c. of_nat (of_char c)) s"

text \<open>
  The values \<open>response.json()\<close> and \<open>req.json()\<close> can produce, and \<open>undefined\<close>, which
  a read of a missing property gives. An object is the list of its own properties; the
  first binding of a key is the live one. A number is kept as the rational value it was
  parsed to: the code only tests numbers for being zero.
\<close>

datatype jsval =
    Undefined
  | Null
  | Bool bool
  | Num rat
  | Str jsstring
  | Arr "jsval list"
  | Obj "(jsstring \<times> jsval) list"

datatype js_error =
    TypeError            \<comment> \<open>property read on null/undefined, call of a non-function, non-iterable\<close>
  | FetchFailed          \<comment> \<open>\<open>fetch\<close> rejects: transport failure or the 20 s \<open>AbortSignal.timeout\<close>\<close>
  | BadJson              \<comment> \<open>\<open>response.json()\<close> or \<open>req.json()\<close> rejects\<close>
  | HttpError nat jsstring  \<comment> \<open>\<open>HTTP ${status}: ${errText.substring(0, 200)}\<close>\<close>
  | EmptyResult          \<comment> \<open>the error "generated result was empty"\<close>
  | TruncatedError       \<comment> \<open>the error "response was cut off (MAX_TOKENS)"\<close>
  | OutOfRange nat       \<comment> \<open>the error "character count out of range (n characters)"\<close>

text \<open>Truthiness, as \<open>!v\<close> and \<open>v || d\<close> test it.\<close>

fun truthy :: "jsval \<Rightarrow> bool" where
  "truthy Undefined = False"
| "truthy Null = False"
| "truthy (Bool b) = b"
| "truthy (Num n) = (n \<noteq> 0)"
| "truthy (Str s) = (s \<noteq> [])"
| "truthy (Arr xs) = True"
| "truthy (Obj kvs) = True"

text \<open>
  \<open>v.p\<close> for a property name \<open>p\<close>. Reading from \<open>null\<close> or \<open>undefined\<close> throws. None of
  the names the code reads (\<open>candidates\<close>, \<open>content\<close>, \<open>parts\<close>, \<open>thought\<close>, \<open>text\<close>,
  \<open>finishReason\<close>, \<open>keyword\<close>) is inherited from a prototype, so only own properties and
  the \<open>length\<close> of arrays and strings are found.
\<close>

fun getProp :: "jsval \<Rightarrow> jsstring \<Rightarrow> js_error + jsval" where
  "getProp Undefined p = Inl TypeError"
| "getProp Null p = Inl TypeError"
| "getProp (Obj kvs) p = Inr (case map_of kvs p of None \<Rightarrow> Undefined | Some v \<Rightarrow> v)"
| "getProp (Arr xs) p = Inr (if p = js ''length'' then Num (of_nat (length xs)) else Undefined)"
| "getProp (Str s) p = Inr (if p = js ''length'' then Num (of_nat (length s)) else Undefined)"
| "getProp v p = Inr Undefined"

text \<open>\<open>v?.p\<close>: \<open>undefined\<close> instead of a throw.\<close>

fun optProp :: "jsval \<Rightarrow> jsstring \<Rightarrow> jsval" where
  "optProp v p = (case getProp v p of Inl e \<Rightarrow> Undefined | Inr w \<Rightarrow> w)"

text \<open>\<open>v[0]\<close>.\<close>

fun getIndex0 :: "jsval \<Rightarrow> js_error + jsval" where
  "getIndex0 Undefined = Inl TypeError"
| "getIndex0 Null = Inl TypeError"
| "getIndex0 (Arr xs) = Inr (case xs of [] \<Rightarrow> Undefined | x # _ \<Rightarrow> x)"
| "getIndex0 (Str s) = Inr (case s of [] \<Rightarrow> Undefined | c # _ \<Rightarrow> Str [c])"
| "getIndex0 (Obj kvs) = Inr (case map_of kvs (js ''0'') of None \<Rightarrow> Undefined | Some v \<Rightarrow> v)"
| "getIndex0 v = Inr Undefined"

text \<open>
  \<open>String.prototype.trim\<close> strips WhiteSpace and LineTerminator code points from both
  ends; all of them are single code units.
\<close>

definition isWhiteSpace :: "16 word \<Rightarrow> bool" where
  "isWhiteSpace c \<longleftrightarrow> c \<in> set [0x9, 0xA, 0xB, 0xC, 0xD, 0x20, 0xA0, 0x1680,
     0x2000, 0x2001, 0x2002, 0x2003, 0x2004, 0x2005, 0x2006, 0x2007, 0x2008, 0x2009, 0x200A,
     0x2028, 0x2029, 0x202F, 0x205F, 0x3000, 0xFEFF]"

definition trim :: "jsstring \<Rightarrow> jsstring" where
  "trim s = rev (dropWhile isWhiteSpace (rev (dropWhile isWhiteSpace s)))"

section \<open>Rate limiting (in memory, by client address)\<close>

definition RATE_LIMIT_PER_MINUTE :: nat where
  "RATE_LIMIT_PER_MINUTE = 10"

text \<open>\<open>rateLimitMap\<close>: the timestamps (milliseconds, \<open>Date.now()\<close>) recorded per address.\<close>

type_synonym rateLimitMap = "jsstring \<rightharpoonup> int list"

text \<open>
  \<open>isRateLimited(ip)\<close>, with \<open>Date.now()\<close> as the argument \<open>now\<close> and the map passed
  through. The result is the answer and the map left behind.
\<close>

definition isRateLimited :: "jsstring \<Rightarrow> int \<Rightarrow> rateLimitMap \<Rightarrow> bool \<times> rateLimitMap" where
  "isRateLimited ip now m =
     (let windowMs = 60000;
          timestamps = (case m ip of None \<Rightarrow> [] | Some ts \<Rightarrow> ts);
          recent = filter (\<lambda>t. now - t < windowMs) timestamps;
          m1 = m(ip \<mapsto> recent)
      in if length recent \<ge> RATE_LIMIT_PER_MINUTE then (True, m1)
         else (False, m1(ip \<mapsto> recent @ [now])))"

section \<open>Prompts\<close>

text \<open>The decimal digits of a length, as a template literal renders a number.\<close>

fun decimal :: "nat \<Rightarrow> jsstring" where
  "decimal n = (if n < 10 then [of_nat (48 + n)]
                else decimal (n div 10) @ [of_nat (48 + n mod 10)])"

declare decimal.simps [simp del]

text \<open>\<open>buildUserPrompt\<close>: the keyword between the two fixed pieces of the template.\<close>

definition buildUserPrompt :: "jsstring \<Rightarrow> jsstring" where
  "buildUserPrompt keyword =
     [0x5358, 0x8A9E, 0xFF1A, 0x300C] @ keyword @
     [0x300D, 0xA, 0xA, 0x4E0A, 0x8A18, 0x306E, 0x5358, 0x8A9E, 0x304B, 0x3089, 0x5317, 0x4E5D,
      0x5DDE, 0x306B, 0x7D10, 0x3065, 0x304F, 0x30C8, 0x30EA, 0x30D3, 0x30A2, 0x3092, 0x31, 0x3064,
      0x66F8, 0x3044, 0x3066, 0x304F, 0x3060, 0x3055, 0x3044, 0x3002, 0xA, 0x5FC5, 0x305A, 0x37,
      0x30, 0x301C, 0x31, 0x30, 0x30, 0x6587, 0x5B57, 0x3067, 0x3001, 0x6587, 0x672B, 0x306F,
      0x300C, 0x3002, 0x300D, 0x3067, 0x5B8C, 0x7D50, 0x3055, 0x305B, 0x3066, 0x304F, 0x3060, 0x3055,
      0x3044, 0x3002, 0x9014, 0x4E2D, 0x3067, 0x5207, 0x3089, 0x306A, 0x3044, 0x3067, 0x304F, 0x3060,
      0x3055, 0x3044, 0x3002]"

text \<open>\<open>getRetryPrompt\<close>: "too short" below 70, "too long" otherwise.\<close>

definition getRetryPrompt :: "nat \<Rightarrow> jsstring" where
  "getRetryPrompt currentLength =
     (if currentLength < 70 then
        [0x4ECA, 0x306E, 0x51FA, 0x529B, 0x306F] @ decimal currentLength @
        [0x6587, 0x5B57, 0x3067, 0x77ED, 0x3059, 0x304E, 0x307E, 0x3059, 0x3002, 0x5177, 0x4F53, 0x7684,
         0x306A, 0x30A8, 0x30D4, 0x30BD, 0x30FC, 0x30C9, 0x3092, 0x8FFD, 0x52A0, 0x3057, 0x3066, 0x37,
         0x30, 0x6587, 0x5B57, 0x4EE5, 0x4E0A, 0x306B, 0x3057, 0x3066, 0x304F, 0x3060, 0x3055, 0x3044,
         0x3002, 0x31, 0x30, 0x30, 0x6587, 0x5B57, 0x306F, 0x8D85, 0x3048, 0x306A, 0x3044, 0x3067,
         0x304F, 0x3060, 0x3055, 0x3044, 0x3002, 0x6587, 0x672B, 0x306F, 0x300C, 0x3002, 0x300D, 0x3067,
         0x5B8C, 0x7D50, 0x3055, 0x305B, 0x308B, 0x3053, 0x3068, 0x3002]
      else
        [0x4ECA, 0x306E, 0x51FA, 0x529B, 0x306F] @ decimal currentLength @
        [0x6587, 0x5B57, 0x3067, 0x9577, 0x3059, 0x304E, 0x307E, 0x3059, 0x3002, 0x4F59, 0x8A08, 0x306A,
         0x8A00, 0x8449, 0x3092, 0x524A, 0x3063, 0x3066, 0x31, 0x30, 0x30, 0x6587, 0x5B57, 0x4EE5,
         0x5185, 0x306B, 0x53CE, 0x3081, 0x3066, 0x304F, 0x3060, 0x3055, 0x3044, 0x3002, 0x37, 0x30,
         0x6587, 0x5B57, 0x306F, 0x4E0B, 0x56DE, 0x3089, 0x306A, 0x3044, 0x3067, 0x304F, 0x3060, 0x3055,
         0x3044, 0x3002, 0x6587, 0x672B, 0x306F, 0x300C, 0x3002, 0x300D, 0x3067, 0x5B8C, 0x7D50, 0x3055,
         0x305B, 0x308B, 0x3053, 0x3068, 0x3002])"

text \<open>Character count validation: 70 to 100.\<close>

definition isValidLength :: "jsstring \<Rightarrow> bool" where
  "isValidLength text = (let len = length text in len \<ge> 70 \<and> len \<le> 100)"

section \<open>Reading the provider's response\<close>

text \<open>
  What \<open>for (const part of parts)\<close> walks through. An array gives its elements; a string
  gives strings (one per code point, here one per code unit: either way a string, with
  neither \<open>thought\<close> nor \<open>text\<close>); anything else is not iterable.
\<close>

fun iterate :: "jsval \<Rightarrow> js_error + jsval list" where
  "iterate (Arr xs) = Inr xs"
| "iterate (Str s) = Inr (map (\<lambda>c. Str [c]) s)"
| "iterate v = Inl TypeError"

text \<open>The body of the loop over the parts, pushing onto \<open>textParts\<close>.\<close>

fun collectText :: "jsval list \<Rightarrow> jsstring list \<Rightarrow> js_error + jsstring list" where
  "collectText [] textParts = Inr textParts"
| "collectText (part # rest) textParts =
     (case getProp part (js ''thought'') of
        Inl e \<Rightarrow> Inl e
      | Inr th \<Rightarrow>
          if th = Bool True then collectText rest textParts
          else (case getProp part (js ''text'') of
                  Inl e \<Rightarrow> Inl e
                | Inr (Str t) \<Rightarrow>
                    if length (trim t) > 0 then collectText rest (textParts @ [trim t])
                    else collectText rest textParts
                | Inr _ \<Rightarrow> collectText rest textParts))"

text \<open>\<open>extractText\<close>; the \<open>catch\<close> turns every throw into \<open>null\<close>.\<close>

definition extractText :: "jsval \<Rightarrow> jsstring option" where
  "extractText data =
     (let candidates = optProp data (js ''candidates'') in
      if \<not> truthy candidates \<or> getProp candidates (js ''length'') = Inr (Num 0) then None
      else (case getIndex0 candidates of
        Inl e \<Rightarrow> None
      | Inr candidate \<Rightarrow>
          (let content = optProp candidate (js ''content'') in
           if \<not> truthy content then None
           else
             (let parts = optProp content (js ''parts'') in
              if \<not> truthy parts \<or> getProp parts (js ''length'') = Inr (Num 0) then None
              else (case iterate parts of
                Inl e \<Rightarrow> None
              | Inr ps \<Rightarrow>
                  (case collectText ps [] of
                     Inl e \<Rightarrow> None
                   | Inr textParts \<Rightarrow>
                       (if length textParts > 0 then Some (trim (concat textParts))
                        else None)))))))"

text \<open>
  \<open>getFinishReason\<close>. The cast \<open>as string\<close> exists at compile time only: the value
  returned is whatever the response holds, when that is truthy.
\<close>

definition getFinishReason :: "jsval \<Rightarrow> jsval" where
  "getFinishReason data =
     (let candidates = optProp data (js ''candidates'') in
      if \<not> truthy candidates \<or> getProp candidates (js ''length'') = Inr (Num 0)
      then Str (js ''UNKNOWN'')
      else (case getIndex0 candidates of
        Inl e \<Rightarrow> Str (js ''UNKNOWN'')
      | Inr c \<Rightarrow>
          (let fr = optProp c (js ''finishReason'') in
           if truthy fr then fr else Str (js ''UNKNOWN''))))"

section \<open>Model configurations and the model client\<close>

record ModelConfig =
  name :: jsstring
  maxOutputTokens :: nat
  thinkingConfig :: "nat option"  \<comment> \<open>the \<open>thinkingBudget\<close>, when a \<open>thinkingConfig\<close> is given\<close>

definition MODEL_CONFIGS :: "ModelConfig list" where
  "MODEL_CONFIGS =
     [\<lparr>name = js ''gemini-2.0-flash'', maxOutputTokens = 500, thinkingConfig = None\<rparr>,
      \<lparr>name = js ''gemini-2.5-flash'', maxOutputTokens = 8192, thinkingConfig = Some 0\<rparr>,
      \<lparr>name = js ''gemini-2.0-flash-lite'', maxOutputTokens = 500, thinkingConfig = None\<rparr>]"

text \<open>A turn of the conversation: \<open>{ role, parts: [{ text }] }\<close>.\<close>

record message =
  role :: jsstring
  parts :: "jsstring list"

text \<open>
  What one \<open>fetch\<close> of \<open>callGemini\<close> depends on: the configuration (its name is in the
  URL, its limits in \<open>generationConfig\<close>), the key and the conversation. The system
  instruction and the temperature are the same in every call.
\<close>

record request =
  config :: ModelConfig
  apiKey :: jsstring
  contents :: "message list"

text \<open>
  What the \<open>fetch\<close> gives back: a rejection (transport failure, timeout), or a response
  with its status and its body, as \<open>response.json()\<close> and as \<open>response.text()\<close> read it
  (\<open>None\<close> where reading rejects).
\<close>

record http_response =
  status :: nat
  json_body :: "jsval option"
  text_body :: "jsstring option"

datatype fetch_result = Rejected | Responded http_response

text \<open>
  The provider is outside the program: any function of the request and of the number of
  calls made before it in this run.
\<close>

type_synonym provider = "nat \<Rightarrow> request \<Rightarrow> fetch_result"

definition ok :: "http_response \<Rightarrow> bool" where
  "ok response \<longleftrightarrow> 200 \<le> status response \<and> status response \<le> 299"

text \<open>The result of \<open>callGemini\<close>: \<open>{ text, finishReason, rawData }\<close>.\<close>

record gemini_result =
  resultText :: "jsstring option"
  finishReason :: jsval
  rawData :: "jsval option"

definition callGemini ::
  "provider \<Rightarrow> nat \<Rightarrow> ModelConfig \<Rightarrow> jsstring \<Rightarrow> message list \<Rightarrow> js_error + gemini_result" where
  "callGemini fetch n modelConfig key messages =
     (case fetch n \<lparr>config = modelConfig, apiKey = key, contents = messages\<rparr> of
        Rejected \<Rightarrow> Inl FetchFailed
      | Responded response \<Rightarrow>
          (if \<not> ok response then
             (if status response = 404
              then Inr \<lparr>resultText = None, finishReason = Str (js ''NOT_FOUND''), rawData = None\<rparr>
              else (case text_body response of
                      None \<Rightarrow> Inl FetchFailed
                    | Some errText \<Rightarrow> Inl (HttpError (status response) (take 200 errText))))
           else (case json_body response of
                   None \<Rightarrow> Inl BadJson
                 | Some data \<Rightarrow>
                     Inr \<lparr>resultText = extractText data, finishReason = getFinishReason data,
                          rawData = Some data\<rparr>)))"

section \<open>The request handler\<close>

text \<open>
  The variables of \<open>POST\<close> that the loop over the configurations updates, and the
  requests sent to the provider so far, in order.
\<close>

record orch =
  lastError :: "js_error option"
  generatedTrivia :: "jsstring option"
  bestCandidate :: "jsstring option"
  retries :: nat
  usedModel :: jsstring
  calls :: "request list"

text \<open>\<open>!s\<close> for a \<open>string | null\<close>: \<open>null\<close> and the empty string are falsy.\<close>

fun present :: "jsstring option \<Rightarrow> bool" where
  "present None = False"
| "present (Some s) = (s \<noteq> [])"

text \<open>
  \<open>if (!bestCandidate || candidate.length > bestCandidate.length) bestCandidate = candidate\<close>,
  which the source writes out three times.
\<close>

definition trackBest :: "jsstring \<Rightarrow> orch \<Rightarrow> orch" where
  "trackBest candidate st =
     (case bestCandidate st of
        None \<Rightarrow> st\<lparr>bestCandidate := Some candidate\<rparr>
      | Some best \<Rightarrow>
          (if best = [] \<or> length candidate > length best
           then st\<lparr>bestCandidate := Some candidate\<rparr> else st))"

text \<open>One \<open>await callGemini(...)\<close>: the request is noted, the result returned.\<close>

definition invoke ::
  "provider \<Rightarrow> ModelConfig \<Rightarrow> jsstring \<Rightarrow> message list \<Rightarrow> orch \<Rightarrow> (js_error + gemini_result) \<times> orch" where
  "invoke fetch modelConfig key messages st =
     (callGemini fetch (length (calls st)) modelConfig key messages,
      st\<lparr>calls := calls st @ [\<lparr>config = modelConfig, apiKey = key, contents = messages\<rparr>]\<rparr>)"

text \<open>
  The character count retry loop, from \<open>attempt\<close> on. It returns the candidate it ends
  with, or the error a call threw. The \<open>break\<close> is taken when the retry has no text
  (\<open>null\<close> or empty) or is \<open>MAX_TOKENS\<close>; past it the text is there, and the branch for
  \<open>None\<close> is never reached.
\<close>

function retryLoop ::
  "provider \<Rightarrow> ModelConfig \<Rightarrow> jsstring \<Rightarrow> nat \<Rightarrow> jsstring \<Rightarrow> message list \<Rightarrow> orch
     \<Rightarrow> (js_error + jsstring) \<times> orch" where
  "retryLoop fetch modelConfig key attempt candidate messages st =
     (if attempt < 3 \<and> \<not> isValidLength candidate then
        (let st1 = st\<lparr>retries := retries st + 1\<rparr>;
             retryPrompt = getRetryPrompt (length candidate);
             messages1 = messages @
               [\<lparr>role = js ''model'', parts = [candidate]\<rparr>,
                \<lparr>role = js ''user'', parts = [retryPrompt]\<rparr>];
             (res, st2) = invoke fetch modelConfig key messages1 st1
         in (case res of
               Inl e \<Rightarrow> (Inl e, st2)
             | Inr retryResult \<Rightarrow>
                 (if \<not> present (resultText retryResult)
                     \<or> finishReason retryResult = Str (js ''MAX_TOKENS'')
                  then (Inr candidate, st2)
                  else (case resultText retryResult of
                          None \<Rightarrow> (Inr candidate, st2)
                        | Some t \<Rightarrow>
                            retryLoop fetch modelConfig key (attempt + 1) t messages1
                              (trackBest t st2)))))
      else (Inr candidate, st))"
  by pat_completeness auto
termination
  by (relation "measure (\<lambda>(fetch, modelConfig, key, attempt, candidate, messages, st). 3 - attempt)") auto

declare retryLoop.simps [simp del]

text \<open>
  The body of the loop over \<open>MODEL_CONFIGS\<close> for one configuration, with its
  \<open>try\<close>/\<open>catch\<close>: every \<open>throw\<close> ends the iteration with \<open>lastError\<close> set, and
  \<open>continue\<close> ends it with nothing set. \<open>!result.text\<close> holds for \<open>null\<close> and for the
  empty string. The flag says whether the loop is left (\<open>break outerLoop\<close>).
\<close>

definition tryModel ::
  "provider \<Rightarrow> jsstring \<Rightarrow> jsstring \<Rightarrow> ModelConfig \<Rightarrow> orch \<Rightarrow> bool \<times> orch" where
  "tryModel fetch key userPrompt modelConfig st =
     (let messages = [\<lparr>role = js ''user'', parts = [userPrompt]\<rparr>];
          (res, st1) = invoke fetch modelConfig key messages st
      in (case res of
            Inl e \<Rightarrow> (False, st1\<lparr>lastError := Some e\<rparr>)
          | Inr result \<Rightarrow>
              (case resultText result of
                 None \<Rightarrow>
                   (if finishReason result = Str (js ''NOT_FOUND'') then (False, st1)
                    else (False, st1\<lparr>lastError := Some EmptyResult\<rparr>))
               | Some candidate \<Rightarrow>
                   (if candidate = [] then
                      (if finishReason result = Str (js ''NOT_FOUND'') then (False, st1)
                       else (False, st1\<lparr>lastError := Some EmptyResult\<rparr>))
                    else if finishReason result = Str (js ''MAX_TOKENS'') then
                      (False, (trackBest candidate st1)\<lparr>lastError := Some TruncatedError\<rparr>)
                    else
                      (let st2 = trackBest candidate st1;
                           (r, st3) = retryLoop fetch modelConfig key 0 candidate messages st2
                       in (case r of
                             Inl e \<Rightarrow> (False, st3\<lparr>lastError := Some e\<rparr>)
                           | Inr final \<Rightarrow>
                               (if isValidLength final
                                then (True, st3\<lparr>generatedTrivia := Some final,
                                                usedModel := name modelConfig\<rparr>)
                                else (False,
                                      st3\<lparr>lastError := Some (OutOfRange (length final))\<rparr>))))))))"

fun outerLoop ::
  "provider \<Rightarrow> jsstring \<Rightarrow> jsstring \<Rightarrow> ModelConfig list \<Rightarrow> orch \<Rightarrow> orch" where
  "outerLoop fetch key userPrompt [] st = st"
| "outerLoop fetch key userPrompt (modelConfig # rest) st =
     (case tryModel fetch key userPrompt modelConfig st of
        (True, st1) \<Rightarrow> st1
      | (False, st1) \<Rightarrow> outerLoop fetch key userPrompt rest st1)"

text \<open>Fallback: the best candidate, even out of range, when nothing was accepted.\<close>

definition useFallback :: "orch \<Rightarrow> orch" where
  "useFallback st =
     (case bestCandidate st of
        None \<Rightarrow> st
      | Some best \<Rightarrow>
          (if \<not> present (generatedTrivia st) \<and> best \<noteq> [] \<and> length best \<ge> 10
           then st\<lparr>generatedTrivia := Some best, usedModel := js ''fallback''\<rparr>
           else st))"

text \<open>The variables as declared, the loop, the fallback: the state before the answer is built.\<close>

definition generate :: "provider \<Rightarrow> jsstring \<Rightarrow> jsstring \<Rightarrow> ModelConfig list \<Rightarrow> orch" where
  "generate fetch key keyword configs =
     useFallback
       (outerLoop fetch key (buildUserPrompt keyword) configs
          \<lparr>lastError = None, generatedTrivia = None, bestCandidate = None, retries = 0,
           usedModel = [], calls = []\<rparr>)"

text \<open>
  The JSON answers of \<open>POST\<close>. A success carries \<open>trivia\<close>, \<open>keyword\<close>, \<open>retries\<close> and
  \<open>model\<close> (and the constant \<open>mode\<close> and the time of the answer, left out) with status
  200; an error carries its code, its message, \<open>details\<close> where the source gives them, and
  its status, and no other field. The messages are named, not spelled out: no API key set,
  limit per minute reached, enter a word, at most 30 characters, generation failed (after
  the loop), server error (the outer \<open>catch\<close>).
\<close>

datatype error_code = config_error | rate_limited | validation_error | generation_failed

datatype error_message =
    MsgNoApiKey | MsgRateLimited | MsgEnterAWord | MsgWithin30 | MsgGenerationFailed
  | MsgServerError

datatype response =
    Success (trivia: jsstring) (keyword: jsstring) (retriesField: nat) (model: jsstring)
  | Failure (code: error_code) (msg: error_message) (details: "js_error option")
      (httpStatus: nat)

text \<open>
  \<open>(body.keyword || "").trim()\<close> on what \<open>req.json()\<close> gave (\<open>None\<close>: it rejected). A
  truthy keyword that is not a string has no \<open>trim\<close> to call.
\<close>

definition readKeyword :: "jsval option \<Rightarrow> js_error + jsstring" where
  "readKeyword body =
     (case body of
        None \<Rightarrow> Inl BadJson
      | Some b \<Rightarrow>
          (case getProp b (js ''keyword'') of
             Inl e \<Rightarrow> Inl e
           | Inr k \<Rightarrow>
               (if truthy k then (case k of Str s \<Rightarrow> Inr (trim s) | _ \<Rightarrow> Inl TypeError)
                else Inr (trim []))))"

text \<open>\<open>forwarded ? forwarded.split(",")[0].trim() : "unknown"\<close>.\<close>

definition clientIp :: "jsstring option \<Rightarrow> jsstring" where
  "clientIp forwarded =
     (if present forwarded
      then (case forwarded of None \<Rightarrow> js ''unknown''
            | Some f \<Rightarrow> trim (takeWhile (\<lambda>c. c \<noteq> 0x2C) f))
      else js ''unknown'')"

text \<open>\<open>API_KEY_RAW ? API_KEY_RAW.trim() : ""\<close>, on the variable of the environment.\<close>

definition apiKeyOf :: "jsstring option \<Rightarrow> jsstring" where
  "apiKeyOf API_KEY_RAW =
     (case API_KEY_RAW of None \<Rightarrow> [] | Some raw \<Rightarrow> if raw = [] then [] else trim raw)"

text \<open>
  What a run of \<open>POST\<close> leaves: the answer, the rate limit map, the requests sent to the
  provider, and the keyword handed to \<open>logKeyword\<close>, if any.
\<close>

record outcome =
  answer :: response
  rateMap :: rateLimitMap
  sent :: "request list"
  logged :: "jsstring option"

text \<open>
  \<open>POST\<close>. Its inputs are the environment's \<open>GEMINI_API_KEY\<close>, the \<open>x-forwarded-for\<close>
  header, the parsed body, the clock read by \<open>isRateLimited\<close>, the rate limit map and the
  provider.
\<close>

definition POST ::
  "provider \<Rightarrow> jsstring option \<Rightarrow> jsstring option \<Rightarrow> jsval option \<Rightarrow> int \<Rightarrow> rateLimitMap
     \<Rightarrow> outcome" where
  "POST fetch API_KEY_RAW forwarded body now m =
     (let API_KEY = apiKeyOf API_KEY_RAW
      in if API_KEY = [] then
           \<lparr>answer = Failure config_error MsgNoApiKey None 500,
            rateMap = m, sent = [], logged = None\<rparr>
         else
           (let ip = clientIp forwarded;
                (limited, m1) = isRateLimited ip now m
            in if limited then
                 \<lparr>answer = Failure rate_limited MsgRateLimited None 429,
                  rateMap = m1, sent = [], logged = None\<rparr>
               else
                 (case readKeyword body of
                    Inl e \<Rightarrow>
                      \<lparr>answer = Failure generation_failed MsgServerError (Some e) 500,
                       rateMap = m1, sent = [], logged = None\<rparr>
                  | Inr kw \<Rightarrow>
                      (if kw = [] then
                         \<lparr>answer = Failure validation_error MsgEnterAWord None 400,
                          rateMap = m1, sent = [], logged = None\<rparr>
                       else if length kw > 30 then
                         \<lparr>answer = Failure validation_error MsgWithin30 None 400,
                          rateMap = m1, sent = [], logged = None\<rparr>
                       else
                         (let st = generate fetch API_KEY kw MODEL_CONFIGS
                          in (case generatedTrivia st of
                                None \<Rightarrow>
                                  \<lparr>answer = Failure generation_failed MsgGenerationFailed
                                              (lastError st) 500,
                                   rateMap = m1, sent = calls st, logged = None\<rparr>
                              | Some t \<Rightarrow>
                                  (if t = [] then
                                     \<lparr>answer = Failure generation_failed MsgGenerationFailed
                                                (lastError st) 500,
                                      rateMap = m1, sent = calls st, logged = None\<rparr>
                                   else
                                     \<lparr>answer = Success t kw (retries st) (usedModel st),
                                      rateMap = m1, sent = calls st, logged = Some kw\<rparr>)))))))"

section \<open>Notions used to state the properties\<close>

text \<open>The timestamps recorded for an address: \<open>rateLimitMap.get(ip) || []\<close>.\<close>

definition timestampsOf :: "rateLimitMap \<Rightarrow> jsstring \<Rightarrow> int list" where
  "timestampsOf m ip = (case m ip of None \<Rightarrow> [] | Some ts \<Rightarrow> ts)"

text \<open>Successive admission checks of one address, at the given times, in order.\<close>

fun checks :: "jsstring \<Rightarrow> int list \<Rightarrow> rateLimitMap \<Rightarrow> bool list \<times> rateLimitMap" where
  "checks ip [] m = ([], m)"
| "checks ip (now # rest) m =
     (let (limited, m1) = isRateLimited ip now m;
          (ls, m2) = checks ip rest m1
      in (limited # ls, m2))"

text \<open>The request of a call, the first turn, and the two turns pushed before a retry.\<close>

definition mkRequest :: "ModelConfig \<Rightarrow> jsstring \<Rightarrow> message list \<Rightarrow> request" where
  "mkRequest c k ms = \<lparr>config = c, apiKey = k, contents = ms\<rparr>"

definition userTurn :: "jsstring \<Rightarrow> message" where
  "userTurn up = \<lparr>role = js ''user'', parts = [up]\<rparr>"

definition retryTurns :: "jsstring \<Rightarrow> message list" where
  "retryTurns candidate =
     [\<lparr>role = js ''model'', parts = [candidate]\<rparr>,
      \<lparr>role = js ''user'', parts = [getRetryPrompt (length candidate)]\<rparr>]"

text \<open>A correction call carries more than the first turn.\<close>

definition isCorrection :: "request \<Rightarrow> bool" where
  "isCorrection q \<longleftrightarrow> 1 < length (contents q)"

text \<open>The state after the first call of a configuration, and after a correction call.\<close>

definition afterFirstCall :: "ModelConfig \<Rightarrow> jsstring \<Rightarrow> jsstring \<Rightarrow> orch \<Rightarrow> orch" where
  "afterFirstCall cfg key up st = st\<lparr>calls := calls st @ [mkRequest cfg key [userTurn up]]\<rparr>"

definition afterRetryCall ::
  "ModelConfig \<Rightarrow> jsstring \<Rightarrow> jsstring \<Rightarrow> message list \<Rightarrow> orch \<Rightarrow> orch" where
  "afterRetryCall cfg key candidate messages st =
     st\<lparr>retries := retries st + 1,
        calls := calls st @ [mkRequest cfg key (messages @ retryTurns candidate)]\<rparr>"

text \<open>The best candidate after one more text: what \<open>trackBest\<close> does to the field.\<close>

definition longer :: "jsstring option \<Rightarrow> jsstring \<Rightarrow> jsstring option" where
  "longer best t =
     (case best of None \<Rightarrow> Some t
      | Some b \<Rightarrow> if b = [] \<or> length b < length t then Some t else Some b)"

text \<open>The variables of \<open>POST\<close> as it declares them, before the loop.\<close>

definition initial :: orch where
  "initial = \<lparr>lastError = None, generatedTrivia = None, bestCandidate = None, retries = 0,
     usedModel = [], calls = []\<rparr>"

text \<open>What the provider answered to the \<open>i\<close>-th request of a run.\<close>

definition answerOf :: "provider \<Rightarrow> request list \<Rightarrow> nat \<Rightarrow> js_error + gemini_result" where
  "answerOf fetch qs i = callGemini fetch i (config (qs ! i)) (apiKey (qs ! i)) (contents (qs ! i))"

text \<open>
  What the retry loop may add to a state: at most \<open>bound\<close> calls, all corrections for
  the configuration, each counted in \<open>retries\<close>.
\<close>

definition retryEffect :: "ModelConfig \<Rightarrow> jsstring \<Rightarrow> nat \<Rightarrow> orch \<Rightarrow> orch \<Rightarrow> bool" where
  "retryEffect cfg key bound st st' \<longleftrightarrow>
     (\<exists>new. calls st' = calls st @ new \<and> length new \<le> bound
        \<and> retries st' = retries st + length new
        \<and> (\<forall>q\<in>set new. config q = cfg \<and> apiKey q = key \<and> isCorrection q)
        \<and> lastError st' = lastError st \<and> generatedTrivia st' = generatedTrivia st
        \<and> usedModel st' = usedModel st)"

text \<open>
  What one configuration may add: its first call, then at most three correction calls,
  each counted in \<open>retries\<close>.
\<close>

definition modelEffect :: "ModelConfig \<Rightarrow> jsstring \<Rightarrow> jsstring \<Rightarrow> orch \<Rightarrow> orch \<Rightarrow> bool" where
  "modelEffect cfg key up st st' \<longleftrightarrow>
     (\<exists>new. calls st' = calls st @ mkRequest cfg key [userTurn up] # new \<and> length new \<le> 3
        \<and> retries st' = retries st + length new
        \<and> (\<forall>q\<in>set new. config q = cfg \<and> apiKey q = key \<and> isCorrection q))"

text \<open>
  The \<open>j\<close>-th request is the correction of the one before: same configuration, and the
  conversation of the one before with two turns appended, the candidate it was answered
  with (not truncated, out of range) and the correction prompt for its length.
\<close>

definition correctionStep :: "provider \<Rightarrow> request list \<Rightarrow> nat \<Rightarrow> bool" where
  "correctionStep fetch qs j \<longleftrightarrow>
     0 < j \<and> config (qs ! j) = config (qs ! (j - 1)) \<and>
     (case answerOf fetch qs (j - 1) of
        Inl e \<Rightarrow> False
      | Inr r \<Rightarrow>
          (case resultText r of
             None \<Rightarrow> False
           | Some t \<Rightarrow>
               t \<noteq> [] \<and> finishReason r \<noteq> Str (js ''MAX_TOKENS'') \<and> \<not> isValidLength t
               \<and> contents (qs ! j) = contents (qs ! (j - 1)) @ retryTurns t))"

text \<open>Every request of a run is a first call or the correction of the one before.\<close>

definition wellFormedTrace :: "provider \<Rightarrow> jsstring \<Rightarrow> request list \<Rightarrow> bool" where
  "wellFormedTrace fetch up qs \<longleftrightarrow>
     (\<forall>j<length qs. contents (qs ! j) = [userTurn up] \<or> correctionStep fetch qs j)"

text \<open>
  The last request went to \<open>cfg\<close> with the conversation \<open>messages\<close> and was answered with
  the candidate, not truncated.
\<close>

definition pending ::
  "provider \<Rightarrow> ModelConfig \<Rightarrow> jsstring \<Rightarrow> jsstring \<Rightarrow> message list \<Rightarrow> request list \<Rightarrow> bool" where
  "pending fetch cfg key candidate messages qs \<longleftrightarrow>
     qs \<noteq> [] \<and> last qs = mkRequest cfg key messages \<and> candidate \<noteq> [] \<and>
     (\<exists>r. callGemini fetch (length qs - 1) cfg key messages = Inr r
          \<and> resultText r = Some candidate \<and> finishReason r \<noteq> Str (js ''MAX_TOKENS''))"

text \<open>The text was produced by \<open>cfg\<close>: it answered the last request of the run, sent to it.\<close>

definition producedBy :: "provider \<Rightarrow> request list \<Rightarrow> ModelConfig \<Rightarrow> jsstring \<Rightarrow> bool" where
  "producedBy fetch qs cfg t \<longleftrightarrow>
     qs \<noteq> [] \<and> config (last qs) = cfg \<and>
     (case answerOf fetch qs (length qs - 1) of
        Inl e \<Rightarrow> False
      | Inr r \<Rightarrow> resultText r = Some t)"

text \<open>
  A body as the provider sends it, with one candidate of one text part, and the
  responses used in the examples.
\<close>

definition geminiBody :: "jsstring \<Rightarrow> jsstring \<Rightarrow> jsval" where
  "geminiBody t fr =
     Obj [(js ''candidates'',
           Arr [Obj [(js ''content'', Obj [(js ''parts'', Arr [Obj [(js ''text'', Str t)]])]),
                     (js ''finishReason'', Str fr)]])]"

definition okResponse :: "jsval \<Rightarrow> fetch_result" where
  "okResponse body = Responded \<lparr>status = 200, json_body = Some body, text_body = None\<rparr>"

definition notFoundResponse :: fetch_result where
  "notFoundResponse = Responded \<lparr>status = 404, json_body = None, text_body = Some []\<rparr>"

text \<open>A provider that answers the successive calls of a run from a list.\<close>

definition scripted :: "fetch_result list \<Rightarrow> provider" where
  "scripted rs n q = (if n < length rs then rs ! n else Rejected)"

section \<open>The steps of the retry loop and of one configuration\<close>

lemma trackBest_fields [simp]:
  "calls (trackBest t st) = calls st"
  "retries (trackBest t st) = retries st"
  "lastError (trackBest t st) = lastError st"
  "generatedTrivia (trackBest t st) = generatedTrivia st"
  "usedModel (trackBest t st) = usedModel st"
  by (simp_all add: trackBest_def split: option.splits)

lemma mkRequest_fields [simp]:
  "config (mkRequest c k ms) = c" "apiKey (mkRequest c k ms) = k"
  "contents (mkRequest c k ms) = ms"
  by (simp_all add: mkRequest_def)

lemma afterFirstCall_fields [simp]:
  "calls (afterFirstCall cfg key up st) = calls st @ [mkRequest cfg key [userTurn up]]"
  "retries (afterFirstCall cfg key up st) = retries st"
  "lastError (afterFirstCall cfg key up st) = lastError st"
  "generatedTrivia (afterFirstCall cfg key up st) = generatedTrivia st"
  "usedModel (afterFirstCall cfg key up st) = usedModel st"
  "bestCandidate (afterFirstCall cfg key up st) = bestCandidate st"
  by (simp_all add: afterFirstCall_def)

lemma afterRetryCall_fields [simp]:
  "calls (afterRetryCall cfg key candidate messages st) =
     calls st @ [mkRequest cfg key (messages @ retryTurns candidate)]"
  "retries (afterRetryCall cfg key candidate messages st) = retries st + 1"
  "lastError (afterRetryCall cfg key candidate messages st) = lastError st"
  "generatedTrivia (afterRetryCall cfg key candidate messages st) = generatedTrivia st"
  "usedModel (afterRetryCall cfg key candidate messages st) = usedModel st"
  "bestCandidate (afterRetryCall cfg key candidate messages st) = bestCandidate st"
  by (simp_all add: afterRetryCall_def)

lemma isCorrection_retry [simp]: "isCorrection (mkRequest c k (ms @ retryTurns t))"
  by (simp add: isCorrection_def retryTurns_def)

lemma isCorrection_first [simp]: "\<not> isCorrection (mkRequest c k [userTurn up])"
  by (simp add: isCorrection_def)

text \<open>The four ways one round of the retry loop can go.\<close>

lemma retryLoop_done:
  "3 \<le> attempt \<or> isValidLength candidate \<Longrightarrow>
   retryLoop fetch cfg key attempt candidate messages st = (Inr candidate, st)"
  by (subst retryLoop.simps) auto

lemma retryLoop_error:
  "attempt < 3 \<Longrightarrow> \<not> isValidLength candidate \<Longrightarrow>
   callGemini fetch (length (calls st)) cfg key (messages @ retryTurns candidate) = Inl e \<Longrightarrow>
   retryLoop fetch cfg key attempt candidate messages st =
     (Inl e, afterRetryCall cfg key candidate messages st)"
  by (subst retryLoop.simps)
     (simp add: invoke_def retryTurns_def afterRetryCall_def mkRequest_def Let_def)

lemma retryLoop_stop:
  "attempt < 3 \<Longrightarrow> \<not> isValidLength candidate \<Longrightarrow>
   callGemini fetch (length (calls st)) cfg key (messages @ retryTurns candidate) = Inr r \<Longrightarrow>
   \<not> present (resultText r) \<or> finishReason r = Str (js ''MAX_TOKENS'') \<Longrightarrow>
   retryLoop fetch cfg key attempt candidate messages st =
     (Inr candidate, afterRetryCall cfg key candidate messages st)"
  by (subst retryLoop.simps)
     (auto simp: invoke_def retryTurns_def afterRetryCall_def mkRequest_def Let_def)

lemma retryLoop_next:
  "attempt < 3 \<Longrightarrow> \<not> isValidLength candidate \<Longrightarrow>
   callGemini fetch (length (calls st)) cfg key (messages @ retryTurns candidate) = Inr r \<Longrightarrow>
   resultText r = Some t \<Longrightarrow> t \<noteq> [] \<Longrightarrow> finishReason r \<noteq> Str (js ''MAX_TOKENS'') \<Longrightarrow>
   retryLoop fetch cfg key attempt candidate messages st =
     retryLoop fetch cfg key (attempt + 1) t (messages @ retryTurns candidate)
       (trackBest t (afterRetryCall cfg key candidate messages st))"
  by (subst retryLoop.simps)
     (simp add: invoke_def retryTurns_def afterRetryCall_def mkRequest_def Let_def)

lemma retryEffect_refl: "retryEffect cfg key bound st st"
  by (simp add: retryEffect_def)

lemma retryEffect_one:
  "0 < bound \<Longrightarrow> retryEffect cfg key bound st (afterRetryCall cfg key candidate messages st)"
  unfolding retryEffect_def
  by (intro exI[of _ "[mkRequest cfg key (messages @ retryTurns candidate)]"]) simp

lemma retryEffect_step:
  assumes "retryEffect cfg key bound (trackBest t (afterRetryCall cfg key candidate messages st)) st'"
  shows "retryEffect cfg key (Suc bound) st st'"
proof -
  from assms obtain new where new:
    "calls st' = calls (trackBest t (afterRetryCall cfg key candidate messages st)) @ new"
    "length new \<le> bound"
    "retries st' = retries (trackBest t (afterRetryCall cfg key candidate messages st)) + length new"
    "\<forall>q\<in>set new. config q = cfg \<and> apiKey q = key \<and> isCorrection q"
    "lastError st' = lastError (trackBest t (afterRetryCall cfg key candidate messages st))"
    "generatedTrivia st' = generatedTrivia (trackBest t (afterRetryCall cfg key candidate messages st))"
    "usedModel st' = usedModel (trackBest t (afterRetryCall cfg key candidate messages st))"
    unfolding retryEffect_def by blast
  show ?thesis
    unfolding retryEffect_def using new
    by (intro exI[of _ "mkRequest cfg key (messages @ retryTurns candidate) # new"]) simp
qed

lemma retryLoop_trace:
  "retryEffect cfg key (3 - attempt) st
     (snd (retryLoop fetch cfg key attempt candidate messages st))"
proof (induction "3 - attempt" arbitrary: attempt candidate messages st)
  case 0
  then show ?case by (simp add: retryLoop_done retryEffect_refl)
next
  case (Suc k)
  then have lt: "attempt < 3" by simp
  show ?case
  proof (cases "isValidLength candidate")
    case True
    then show ?thesis by (simp add: retryLoop_done retryEffect_refl)
  next
    case False
    let ?m1 = "messages @ retryTurns candidate"
    show ?thesis
    proof (cases "callGemini fetch (length (calls st)) cfg key ?m1")
      case (Inl e)
      then show ?thesis using lt False by (simp add: retryLoop_error retryEffect_one)
    next
      case (Inr r)
      show ?thesis
      proof (cases "\<not> present (resultText r) \<or> finishReason r = Str (js ''MAX_TOKENS'')")
        case True
        then show ?thesis using lt False Inr by (simp add: retryLoop_stop retryEffect_one)
      next
        case stop: False
        then obtain t where t: "resultText r = Some t" "t \<noteq> []"
          by (cases "resultText r") auto
        have k: "k = 3 - (attempt + 1)" using Suc.hyps(2) by simp
        have "retryEffect cfg key k (trackBest t (afterRetryCall cfg key candidate messages st))
            (snd (retryLoop fetch cfg key (attempt + 1) t ?m1
                   (trackBest t (afterRetryCall cfg key candidate messages st))))"
          using Suc.hyps(1)[OF k] k by simp
        then have "retryEffect cfg key (Suc k) st
            (snd (retryLoop fetch cfg key (attempt + 1) t ?m1
                   (trackBest t (afterRetryCall cfg key candidate messages st))))"
          by (rule retryEffect_step)
        then show ?thesis
          using lt False Inr t stop Suc.hyps(2) by (simp add: retryLoop_next)
      qed
    qed
  qed
qed

text \<open>The five ways the first call of a configuration can go.\<close>

lemma tryModel_error:
  "callGemini fetch (length (calls st)) cfg key [userTurn up] = Inl e \<Longrightarrow>
   tryModel fetch key up cfg st = (False, (afterFirstCall cfg key up st)\<lparr>lastError := Some e\<rparr>)"
  by (simp add: tryModel_def invoke_def afterFirstCall_def mkRequest_def userTurn_def Let_def)

lemma tryModel_not_found:
  "callGemini fetch (length (calls st)) cfg key [userTurn up] = Inr r \<Longrightarrow>
   \<not> present (resultText r) \<Longrightarrow> finishReason r = Str (js ''NOT_FOUND'') \<Longrightarrow>
   tryModel fetch key up cfg st = (False, afterFirstCall cfg key up st)"
  by (cases "resultText r")
     (simp_all add: tryModel_def invoke_def afterFirstCall_def mkRequest_def userTurn_def Let_def)

lemma tryModel_empty:
  "callGemini fetch (length (calls st)) cfg key [userTurn up] = Inr r \<Longrightarrow>
   \<not> present (resultText r) \<Longrightarrow> finishReason r \<noteq> Str (js ''NOT_FOUND'') \<Longrightarrow>
   tryModel fetch key up cfg st =
     (False, (afterFirstCall cfg key up st)\<lparr>lastError := Some EmptyResult\<rparr>)"
  by (cases "resultText r")
     (simp_all add: tryModel_def invoke_def afterFirstCall_def mkRequest_def userTurn_def Let_def)

lemma tryModel_truncated:
  "callGemini fetch (length (calls st)) cfg key [userTurn up] = Inr r \<Longrightarrow>
   resultText r = Some t \<Longrightarrow> t \<noteq> [] \<Longrightarrow> finishReason r = Str (js ''MAX_TOKENS'') \<Longrightarrow>
   tryModel fetch key up cfg st =
     (False, (trackBest t (afterFirstCall cfg key up st))\<lparr>lastError := Some TruncatedError\<rparr>)"
  by (simp add: tryModel_def invoke_def afterFirstCall_def mkRequest_def userTurn_def Let_def)

lemma tryModel_retry:
  "callGemini fetch (length (calls st)) cfg key [userTurn up] = Inr r \<Longrightarrow>
   resultText r = Some t \<Longrightarrow> t \<noteq> [] \<Longrightarrow> finishReason r \<noteq> Str (js ''MAX_TOKENS'') \<Longrightarrow>
   tryModel fetch key up cfg st =
     (case fst (retryLoop fetch cfg key 0 t [userTurn up] (trackBest t (afterFirstCall cfg key up st))) of
        Inl e \<Rightarrow>
          (False, (snd (retryLoop fetch cfg key 0 t [userTurn up]
                         (trackBest t (afterFirstCall cfg key up st))))\<lparr>lastError := Some e\<rparr>)
      | Inr final \<Rightarrow>
          (if isValidLength final
           then (True, (snd (retryLoop fetch cfg key 0 t [userTurn up]
                              (trackBest t (afterFirstCall cfg key up st))))
                         \<lparr>generatedTrivia := Some final, usedModel := name cfg\<rparr>)
           else (False, (snd (retryLoop fetch cfg key 0 t [userTurn up]
                               (trackBest t (afterFirstCall cfg key up st))))
                          \<lparr>lastError := Some (OutOfRange (length final))\<rparr>)))"
  by (simp add: tryModel_def invoke_def afterFirstCall_def mkRequest_def userTurn_def Let_def
        split_beta split: sum.splits)

lemma tryModel_cases:
  obtains
    (error) e where "callGemini fetch (length (calls st)) cfg key [userTurn up] = Inl e"
  | (not_found) r where "callGemini fetch (length (calls st)) cfg key [userTurn up] = Inr r"
      "\<not> present (resultText r)" "finishReason r = Str (js ''NOT_FOUND'')"
  | (empty) r where "callGemini fetch (length (calls st)) cfg key [userTurn up] = Inr r"
      "\<not> present (resultText r)" "finishReason r \<noteq> Str (js ''NOT_FOUND'')"
  | (truncated) r t where "callGemini fetch (length (calls st)) cfg key [userTurn up] = Inr r"
      "resultText r = Some t" "t \<noteq> []" "finishReason r = Str (js ''MAX_TOKENS'')"
  | (retry) r t where "callGemini fetch (length (calls st)) cfg key [userTurn up] = Inr r"
      "resultText r = Some t" "t \<noteq> []" "finishReason r \<noteq> Str (js ''MAX_TOKENS'')"
proof (cases "callGemini fetch (length (calls st)) cfg key [userTurn up]")
  case (Inl e)
  then show ?thesis by (rule error)
next
  case (Inr r)
  show ?thesis
  proof (cases "present (resultText r)")
    case False
    then show ?thesis using Inr not_found empty by blast
  next
    case True
    then obtain t where "resultText r = Some t" "t \<noteq> []" by (cases "resultText r") auto
    then show ?thesis using Inr truncated retry by blast
  qed
qed

lemma modelEffect_first:
  "calls st' = calls (afterFirstCall cfg key up st) \<Longrightarrow> retries st' = retries st \<Longrightarrow>
   modelEffect cfg key up st st'"
  by (simp add: modelEffect_def)

lemma modelEffect_retry:
  assumes "retryEffect cfg key 3 (trackBest t (afterFirstCall cfg key up st)) st1"
    and "calls st' = calls st1" "retries st' = retries st1"
  shows "modelEffect cfg key up st st'"
  using assms unfolding retryEffect_def modelEffect_def by auto

lemma tryModel_effect: "modelEffect cfg key up st (snd (tryModel fetch key up cfg st))"
proof (cases rule: tryModel_cases[of fetch st cfg key up])
  case (error e)
  then show ?thesis by (simp add: tryModel_error modelEffect_first)
next
  case (not_found r)
  then show ?thesis by (simp add: tryModel_not_found modelEffect_first)
next
  case (empty r)
  then show ?thesis by (simp add: tryModel_empty modelEffect_first)
next
  case (truncated r t)
  then show ?thesis by (simp add: tryModel_truncated modelEffect_first)
next
  case (retry r t)
  let ?R = "retryLoop fetch cfg key 0 t [userTurn up] (trackBest t (afterFirstCall cfg key up st))"
  have eff: "retryEffect cfg key 3 (trackBest t (afterFirstCall cfg key up st)) (snd ?R)"
    using retryLoop_trace[of cfg key 0 "trackBest t (afterFirstCall cfg key up st)" fetch t "[userTurn up]"]
    by simp
  show ?thesis
    using retry
    by (auto simp: tryModel_retry split: sum.splits intro!: modelEffect_retry[OF eff])
qed

lemma answerOf_append: "i < length qs \<Longrightarrow> answerOf fetch (qs @ qs') i = answerOf fetch qs i"
  by (simp add: answerOf_def nth_append)

lemma correctionStep_append:
  "j < length qs \<Longrightarrow> correctionStep fetch (qs @ qs') j = correctionStep fetch qs j"
  by (cases j)
     (auto simp: correctionStep_def answerOf_append nth_append split: sum.splits option.splits)

lemma wellFormedTrace_first:
  assumes "wellFormedTrace fetch up qs"
  shows "wellFormedTrace fetch up (qs @ [mkRequest cfg key [userTurn up]])"
  unfolding wellFormedTrace_def
proof (intro allI impI)
  fix j assume "j < length (qs @ [mkRequest cfg key [userTurn up]])"
  then consider "j < length qs" | "j = length qs" by fastforce
  then show "contents ((qs @ [mkRequest cfg key [userTurn up]]) ! j) = [userTurn up]
      \<or> correctionStep fetch (qs @ [mkRequest cfg key [userTurn up]]) j"
  proof cases
    case 1
    then show ?thesis
      using assms by (simp add: wellFormedTrace_def correctionStep_append nth_append)
  next
    case 2
    then show ?thesis by simp
  qed
qed

lemma pending_answer:
  assumes "pending fetch cfg key t messages qs"
  shows "\<exists>r. answerOf fetch qs (length qs - 1) = Inr r \<and> resultText r = Some t
           \<and> finishReason r \<noteq> Str (js ''MAX_TOKENS'')"
proof -
  from assms have ne: "qs \<noteq> []" and l: "last qs = mkRequest cfg key messages"
    by (simp_all add: pending_def)
  then have "qs ! (length qs - 1) = mkRequest cfg key messages"
    by (simp add: last_conv_nth)
  then show ?thesis using assms by (simp add: pending_def answerOf_def)
qed

lemma wellFormedTrace_correction:
  assumes wf: "wellFormedTrace fetch up qs"
    and p: "pending fetch cfg key t messages qs"
    and out: "\<not> isValidLength t"
  shows "wellFormedTrace fetch up (qs @ [mkRequest cfg key (messages @ retryTurns t)])"
  unfolding wellFormedTrace_def
proof (intro allI impI)
  let ?qs' = "qs @ [mkRequest cfg key (messages @ retryTurns t)]"
  fix j assume "j < length ?qs'"
  then consider "j < length qs" | "j = length qs" by fastforce
  then show "contents (?qs' ! j) = [userTurn up] \<or> correctionStep fetch ?qs' j"
  proof cases
    case 1
    then show ?thesis
      using wf by (simp add: wellFormedTrace_def correctionStep_append nth_append)
  next
    case 2
    from p have ne: "qs \<noteq> []" and l: "last qs = mkRequest cfg key messages" and t: "t \<noteq> []"
      by (simp_all add: pending_def)
    have prev: "qs ! (length qs - 1) = mkRequest cfg key messages"
      using ne l by (simp add: last_conv_nth)
    from pending_answer[OF p] obtain r where r:
      "answerOf fetch qs (length qs - 1) = Inr r" "resultText r = Some t"
      "finishReason r \<noteq> Str (js ''MAX_TOKENS'')" by blast
    have a: "answerOf fetch ?qs' (length qs - 1) = Inr r"
      using ne r(1) by (simp add: answerOf_append)
    have "correctionStep fetch ?qs' (length qs)"
      using ne prev a r(2,3) t out
      by (simp add: correctionStep_def nth_append)
    then show ?thesis using 2 by simp
  qed
qed

lemma pending_snoc:
  "callGemini fetch (length qs) cfg key ms = Inr r \<Longrightarrow> resultText r = Some t \<Longrightarrow> t \<noteq> [] \<Longrightarrow>
   finishReason r \<noteq> Str (js ''MAX_TOKENS'') \<Longrightarrow>
   pending fetch cfg key t ms (qs @ [mkRequest cfg key ms])"
  by (simp add: pending_def)

lemma pending_producedBy:
  assumes "pending fetch cfg key t ms qs"
  shows "producedBy fetch qs cfg t"
proof -
  from pending_answer[OF assms] obtain r where
    "answerOf fetch qs (length qs - 1) = Inr r" "resultText r = Some t" by blast
  then show ?thesis using assms by (simp add: producedBy_def pending_def)
qed

lemma retryLoop_wellFormed:
  "wellFormedTrace fetch up (calls st) \<Longrightarrow> pending fetch cfg key candidate messages (calls st) \<Longrightarrow>
   wellFormedTrace fetch up (calls (snd (retryLoop fetch cfg key attempt candidate messages st)))
   \<and> (\<forall>final. fst (retryLoop fetch cfg key attempt candidate messages st) = Inr final
         \<longrightarrow> isValidLength final
         \<longrightarrow> (\<exists>ms. pending fetch cfg key final ms
                      (calls (snd (retryLoop fetch cfg key attempt candidate messages st)))))"
proof (induction "3 - attempt" arbitrary: attempt candidate messages st)
  case 0
  then show ?case by (auto simp: retryLoop_done)
next
  case (Suc k)
  then have lt: "attempt < 3" by simp
  note wf = Suc.prems(1) and p = Suc.prems(2)
  show ?case
  proof (cases "isValidLength candidate")
    case True
    then show ?thesis using wf p by (auto simp: retryLoop_done)
  next
    case False
    let ?m1 = "messages @ retryTurns candidate"
    let ?st2 = "afterRetryCall cfg key candidate messages st"
    have wf2: "wellFormedTrace fetch up (calls ?st2)"
      using wellFormedTrace_correction[OF wf p False] by simp
    show ?thesis
    proof (cases "callGemini fetch (length (calls st)) cfg key ?m1")
      case (Inl e)
      then show ?thesis using lt False wf2 by (simp add: retryLoop_error)
    next
      case (Inr r)
      show ?thesis
      proof (cases "\<not> present (resultText r) \<or> finishReason r = Str (js ''MAX_TOKENS'')")
        case True
        then show ?thesis using lt False Inr wf2 by (simp add: retryLoop_stop)
      next
        case stop: False
        then obtain t where t: "resultText r = Some t" "t \<noteq> []"
          by (cases "resultText r") auto
        have fr: "finishReason r \<noteq> Str (js ''MAX_TOKENS'')" using stop by simp
        have k: "k = 3 - (attempt + 1)" using Suc.hyps(2) by simp
        have p2: "pending fetch cfg key t ?m1 (calls (trackBest t ?st2))"
          using pending_snoc[OF Inr t fr] by simp
        have wf3: "wellFormedTrace fetch up (calls (trackBest t ?st2))"
          using wf2 by simp
        show ?thesis
          using Suc.hyps(1)[OF k wf3 p2] lt False Inr t fr
          by (simp add: retryLoop_next)
      qed
    qed
  qed
qed

lemma tryModel_wellFormed:
  assumes wf: "wellFormedTrace fetch up (calls st)"
  shows "wellFormedTrace fetch up (calls (snd (tryModel fetch key up cfg st)))
    \<and> (fst (tryModel fetch key up cfg st) \<longrightarrow>
         (\<exists>t. generatedTrivia (snd (tryModel fetch key up cfg st)) = Some t \<and> isValidLength t
            \<and> usedModel (snd (tryModel fetch key up cfg st)) = name cfg
            \<and> producedBy fetch (calls (snd (tryModel fetch key up cfg st))) cfg t))
    \<and> (\<not> fst (tryModel fetch key up cfg st) \<longrightarrow>
         generatedTrivia (snd (tryModel fetch key up cfg st)) = generatedTrivia st
         \<and> usedModel (snd (tryModel fetch key up cfg st)) = usedModel st)"
proof -
  have wf1: "wellFormedTrace fetch up (calls (afterFirstCall cfg key up st))"
    using wellFormedTrace_first[OF wf] by simp
  show ?thesis
  proof (cases rule: tryModel_cases[of fetch st cfg key up])
    case (error e)
    then show ?thesis using wf1 by (simp add: tryModel_error)
  next
    case (not_found r)
    then show ?thesis using wf1 by (simp add: tryModel_not_found)
  next
    case (empty r)
    then show ?thesis using wf1 by (simp add: tryModel_empty)
  next
    case (truncated r t)
    then show ?thesis using wf1 by (simp add: tryModel_truncated)
  next
    case (retry r t)
    let ?st1 = "trackBest t (afterFirstCall cfg key up st)"
    let ?R = "retryLoop fetch cfg key 0 t [userTurn up] ?st1"
    have p: "pending fetch cfg key t [userTurn up] (calls ?st1)"
      using pending_snoc[OF retry] by simp
    have wf2: "wellFormedTrace fetch up (calls ?st1)" using wf1 by simp
    note rl = retryLoop_wellFormed[OF wf2 p, of 0]
    have eff: "retryEffect cfg key 3 ?st1 (snd ?R)"
      using retryLoop_trace[of cfg key 0 ?st1 fetch t "[userTurn up]"] by simp
    then have keep: "generatedTrivia (snd ?R) = generatedTrivia st" "usedModel (snd ?R) = usedModel st"
      by (auto simp: retryEffect_def)
    show ?thesis
    proof (cases "fst ?R")
      case (Inl e)
      then show ?thesis using retry rl keep by (simp add: tryModel_retry)
    next
      case (Inr final)
      show ?thesis
      proof (cases "isValidLength final")
        case True
        then obtain ms where "pending fetch cfg key final ms (calls (snd ?R))"
          using rl Inr by blast
        then have "producedBy fetch (calls (snd ?R)) cfg final" by (rule pending_producedBy)
        then show ?thesis using retry rl Inr True by (simp add: tryModel_retry)
      next
        case False
        then show ?thesis using retry rl Inr keep by (simp add: tryModel_retry)
      qed
    qed
  qed
qed

section \<open>The loop over the configurations\<close>

lemma outerLoop_Cons:
  "outerLoop fetch key up (cfg # rest) st =
     (if fst (tryModel fetch key up cfg st) then snd (tryModel fetch key up cfg st)
      else outerLoop fetch key up rest (snd (tryModel fetch key up cfg st)))"
  by (cases "tryModel fetch key up cfg st") (auto split: bool.splits)

lemma outerLoop_counts:
  "retries (outerLoop fetch key up configs st) \<le> retries st + 3 * length configs
   \<and> length (calls (outerLoop fetch key up configs st)) \<le> length (calls st) + 4 * length configs"
proof (induction configs arbitrary: st)
  case Nil
  then show ?case by simp
next
  case (Cons cfg rest)
  let ?st1 = "snd (tryModel fetch key up cfg st)"
  have "modelEffect cfg key up st ?st1" by (rule tryModel_effect)
  then have one: "retries ?st1 \<le> retries st + 3" "length (calls ?st1) \<le> length (calls st) + 4"
    by (auto simp: modelEffect_def)
  show ?case
    using one Cons.IH[of ?st1] by (simp add: outerLoop_Cons del: outerLoop.simps)
qed

lemma outerLoop_retries:
  "retries st = length (filter isCorrection (calls st)) \<Longrightarrow>
   (\<forall>q\<in>set (calls st). config q \<in> C) \<Longrightarrow> set configs \<subseteq> C \<Longrightarrow>
   retries (outerLoop fetch key up configs st)
     = length (filter isCorrection (calls (outerLoop fetch key up configs st)))
   \<and> (\<forall>q\<in>set (calls (outerLoop fetch key up configs st)). config q \<in> C)"
proof (induction configs arbitrary: st)
  case Nil
  then show ?case by simp
next
  case (Cons cfg rest)
  let ?st1 = "snd (tryModel fetch key up cfg st)"
  have "modelEffect cfg key up st ?st1" by (rule tryModel_effect)
  then obtain new where new: "calls ?st1 = calls st @ mkRequest cfg key [userTurn up] # new"
    "retries ?st1 = retries st + length new"
    "\<forall>q\<in>set new. config q = cfg \<and> apiKey q = key \<and> isCorrection q"
    by (auto simp: modelEffect_def)
  have f: "filter isCorrection new = new" using new(3) by (simp add: filter_id_conv)
  have r1: "retries ?st1 = length (filter isCorrection (calls ?st1))"
    using new(1,2) Cons.prems(1) f by simp
  have c1: "\<forall>q\<in>set (calls ?st1). config q \<in> C"
    using new(1,3) Cons.prems(2,3) by auto
  have s: "set rest \<subseteq> C" using Cons.prems(3) by simp
  show ?case
    using r1 c1 Cons.IH[OF r1 c1 s] by (simp add: outerLoop_Cons del: outerLoop.simps)
qed

lemma outerLoop_wellFormed:
  "wellFormedTrace fetch up (calls st) \<Longrightarrow> generatedTrivia st = None \<Longrightarrow>
   wellFormedTrace fetch up (calls (outerLoop fetch key up configs st))
   \<and> ((generatedTrivia (outerLoop fetch key up configs st) = None
        \<and> usedModel (outerLoop fetch key up configs st) = usedModel st)
      \<or> (\<exists>cfg\<in>set configs. \<exists>t.
            generatedTrivia (outerLoop fetch key up configs st) = Some t \<and> isValidLength t
            \<and> usedModel (outerLoop fetch key up configs st) = name cfg
            \<and> producedBy fetch (calls (outerLoop fetch key up configs st)) cfg t))"
proof (induction configs arbitrary: st)
  case Nil
  then show ?case by simp
next
  case (Cons cfg rest)
  let ?st1 = "snd (tryModel fetch key up cfg st)"
  note one = tryModel_wellFormed[OF Cons.prems(1), of key cfg]
  show ?case
  proof (cases "fst (tryModel fetch key up cfg st)")
    case True
    then show ?thesis using one by (auto simp: outerLoop_Cons simp del: outerLoop.simps)
  next
    case False
    then have g: "generatedTrivia ?st1 = None" and u: "usedModel ?st1 = usedModel st"
      using one Cons.prems(2) by simp_all
    have wf1: "wellFormedTrace fetch up (calls ?st1)" using one by simp
    show ?thesis
      using False Cons.IH[OF wf1 g] u by (auto simp: outerLoop_Cons simp del: outerLoop.simps)
  qed
qed

lemma useFallback_fields [simp]:
  "calls (useFallback st) = calls st"
  "retries (useFallback st) = retries st"
  "lastError (useFallback st) = lastError st"
  "bestCandidate (useFallback st) = bestCandidate st"
  by (simp_all add: useFallback_def split: option.splits)

lemma useFallback_None:
  "generatedTrivia st = None \<Longrightarrow>
   generatedTrivia (useFallback st) =
     (case bestCandidate st of None \<Rightarrow> None
      | Some best \<Rightarrow> if 10 \<le> length best then Some best else None)
   \<and> (generatedTrivia (useFallback st) \<noteq> None \<longrightarrow> usedModel (useFallback st) = js ''fallback'')"
  by (auto simp: useFallback_def split: option.splits)

lemma useFallback_valid:
  "generatedTrivia st = Some t \<Longrightarrow> isValidLength t \<Longrightarrow> useFallback st = st"
  by (auto simp: useFallback_def isValidLength_def Let_def split: option.splits)

lemma wellFormedTrace_Nil: "wellFormedTrace fetch up []"
  by (simp add: wellFormedTrace_def)

lemma generate_outer:
  "generate fetch key kw configs = useFallback (outerLoop fetch key (buildUserPrompt kw) configs initial)"
  by (simp add: generate_def initial_def)

lemma generate_counts:
  "retries (generate fetch key kw configs) \<le> 3 * length configs
   \<and> length (calls (generate fetch key kw configs)) \<le> 4 * length configs"
  using outerLoop_counts[of fetch key "buildUserPrompt kw" configs initial]
  by (simp add: generate_outer) (simp add: initial_def)

lemma generate_retries:
  "retries (generate fetch key kw configs)
     = length (filter isCorrection (calls (generate fetch key kw configs)))
   \<and> (\<forall>q\<in>set (calls (generate fetch key kw configs)). config q \<in> set configs)"
  using outerLoop_retries[of initial "set configs" configs fetch key "buildUserPrompt kw"]
  by (simp add: generate_outer) (simp add: initial_def)

lemma generate_wellFormed:
  "wellFormedTrace fetch (buildUserPrompt kw) (calls (generate fetch key kw configs))"
  using outerLoop_wellFormed[of fetch "buildUserPrompt kw" initial key configs]
  by (simp add: generate_outer) (simp add: initial_def wellFormedTrace_Nil)

lemma generate_accepted:
  assumes "generatedTrivia (generate fetch key kw configs) = Some t"
  shows "(isValidLength t
          \<and> (\<exists>cfg\<in>set configs. usedModel (generate fetch key kw configs) = name cfg
               \<and> producedBy fetch (calls (generate fetch key kw configs)) cfg t))
         \<or> (usedModel (generate fetch key kw configs) = js ''fallback'' \<and> 10 \<le> length t)"
proof -
  let ?o = "outerLoop fetch key (buildUserPrompt kw) configs initial"
  have i: "wellFormedTrace fetch (buildUserPrompt kw) (calls initial)" "generatedTrivia initial = None"
    by (simp_all add: initial_def wellFormedTrace_Nil)
  from outerLoop_wellFormed[OF i, of key configs]
  consider (none) "generatedTrivia ?o = None"
    | (some) cfg t' where "cfg \<in> set configs" "generatedTrivia ?o = Some t'" "isValidLength t'"
        "usedModel ?o = name cfg" "producedBy fetch (calls ?o) cfg t'"
    by (elim conjE disjE bexE exE) auto
  then show ?thesis
  proof cases
    case none
    from useFallback_None[OF none] assms show ?thesis
      by (auto simp: generate_outer split: option.splits if_splits)
  next
    case some
    have "useFallback ?o = ?o" using some(2,3) by (rule useFallback_valid)
    then show ?thesis using some assms by (auto simp: generate_outer)
  qed
qed

section \<open>The handler\<close>

lemma POST_generate:
  assumes "apiKeyOf raw \<noteq> []" "\<not> fst (isRateLimited (clientIp fwd) now m)"
    "readKeyword body = Inr kw" "kw \<noteq> []" "length kw \<le> 30"
  shows "POST fetch raw fwd body now m =
     \<lparr>answer =
        (case generatedTrivia (generate fetch (apiKeyOf raw) kw MODEL_CONFIGS) of
           None \<Rightarrow> Failure generation_failed MsgGenerationFailed
                     (lastError (generate fetch (apiKeyOf raw) kw MODEL_CONFIGS)) 500
         | Some t \<Rightarrow>
             if t = [] then Failure generation_failed MsgGenerationFailed
                     (lastError (generate fetch (apiKeyOf raw) kw MODEL_CONFIGS)) 500
             else Success t kw (retries (generate fetch (apiKeyOf raw) kw MODEL_CONFIGS))
                    (usedModel (generate fetch (apiKeyOf raw) kw MODEL_CONFIGS))),
      rateMap = snd (isRateLimited (clientIp fwd) now m),
      sent = calls (generate fetch (apiKeyOf raw) kw MODEL_CONFIGS),
      logged =
        (case generatedTrivia (generate fetch (apiKeyOf raw) kw MODEL_CONFIGS) of
           None \<Rightarrow> None | Some t \<Rightarrow> if t = [] then None else Some kw)\<rparr>"
  using assms
  by (cases "isRateLimited (clientIp fwd) now m")
     (simp add: POST_def Let_def split: option.splits)

lemma POST_Success:
  assumes "answer (POST fetch raw fwd body now m) = Success t kw r mdl"
  shows "apiKeyOf raw \<noteq> [] \<and> \<not> fst (isRateLimited (clientIp fwd) now m)
    \<and> readKeyword body = Inr kw \<and> kw \<noteq> [] \<and> length kw \<le> 30
    \<and> generatedTrivia (generate fetch (apiKeyOf raw) kw MODEL_CONFIGS) = Some t
    \<and> r = retries (generate fetch (apiKeyOf raw) kw MODEL_CONFIGS)
    \<and> mdl = usedModel (generate fetch (apiKeyOf raw) kw MODEL_CONFIGS)
    \<and> sent (POST fetch raw fwd body now m) = calls (generate fetch (apiKeyOf raw) kw MODEL_CONFIGS)"
  using assms
  by (cases "isRateLimited (clientIp fwd) now m")
     (auto simp: POST_def Let_def split: option.splits sum.splits if_splits)

section \<open>Concrete responses\<close>

lemma trim_replicate: "\<not> isWhiteSpace c \<Longrightarrow> trim (replicate n c) = replicate n c"
  by (cases n) (simp_all add: trim_def replicate_append_same [symmetric] del: replicate_Suc)

lemma extractText_geminiBody:
  "trim t = t \<Longrightarrow> t \<noteq> [] \<Longrightarrow> extractText (geminiBody t fr) = Some t"
  by (simp add: extractText_def geminiBody_def js_def Let_def)

lemma getFinishReason_geminiBody:
  "fr \<noteq> [] \<Longrightarrow> getFinishReason (geminiBody t fr) = Str fr"
  by (simp add: getFinishReason_def geminiBody_def js_def Let_def)

lemma callGemini_ok:
  "fetch n (mkRequest cfg key ms) = okResponse (geminiBody t fr) \<Longrightarrow> trim t = t \<Longrightarrow> t \<noteq> [] \<Longrightarrow>
   fr \<noteq> [] \<Longrightarrow>
   callGemini fetch n cfg key ms =
     Inr \<lparr>resultText = Some t, finishReason = Str fr, rawData = Some (geminiBody t fr)\<rparr>"
  by (simp add: callGemini_def mkRequest_def okResponse_def ok_def extractText_geminiBody
        getFinishReason_geminiBody)



section \<open>Admission control\<close>

lemma isRateLimited_fst:
  "fst (isRateLimited ip now m) \<longleftrightarrow>
     10 \<le> length (filter (\<lambda>t. now - t < 60000) (timestampsOf m ip))"
  by (simp add: isRateLimited_def timestampsOf_def RATE_LIMIT_PER_MINUTE_def Let_def)

lemma isRateLimited_stamps:
  "timestampsOf (snd (isRateLimited ip now m)) ip =
     (if fst (isRateLimited ip now m)
      then filter (\<lambda>t. now - t < 60000) (timestampsOf m ip)
      else filter (\<lambda>t. now - t < 60000) (timestampsOf m ip) @ [now])"
  by (simp add: isRateLimited_def timestampsOf_def RATE_LIMIT_PER_MINUTE_def Let_def)

lemma filter_all: "\<forall>x\<in>set xs. P x \<Longrightarrow> filter P xs = xs"
  by (induction xs) auto


lemma checks_append:
  "checks ip (ts @ us) m =
     (fst (checks ip ts m) @ fst (checks ip us (snd (checks ip ts m))),
      snd (checks ip us (snd (checks ip ts m))))"
  by (induction ts arbitrary: m) (simp_all add: split_beta Let_def)

lemma checks_admitted:
  "\<forall>s\<in>set (timestampsOf m ip). \<forall>t\<in>set ts. t - s < 60000 \<Longrightarrow>
   \<forall>t\<in>set ts. \<forall>u\<in>set ts. u - t < 60000 \<Longrightarrow>
   length (timestampsOf m ip) + length ts \<le> 10 \<Longrightarrow>
   fst (checks ip ts m) = replicate (length ts) False \<and>
   timestampsOf (snd (checks ip ts m)) ip = timestampsOf m ip @ ts"
proof (induction ts arbitrary: m)
  case Nil
  then show ?case by simp
next
  case (Cons now rest)
  let ?S = "timestampsOf m ip"
  let ?r = "isRateLimited ip now m"
  have keep: "filter (\<lambda>t. now - t < 60000) ?S = ?S"
    using Cons.prems(1) by (intro filter_all) simp
  have adm: "\<not> fst ?r"
    using Cons.prems(3) by (simp add: isRateLimited_fst keep)
  have st: "timestampsOf (snd ?r) ip = ?S @ [now]"
    using adm by (simp add: isRateLimited_stamps keep)
  have p1: "\<forall>s\<in>set (timestampsOf (snd ?r) ip). \<forall>t\<in>set rest. t - s < 60000"
    using Cons.prems(1,2) by (auto simp: st)
  have p2: "\<forall>t\<in>set rest. \<forall>u\<in>set rest. u - t < 60000"
    using Cons.prems(2) by simp
  have p3: "length (timestampsOf (snd ?r) ip) + length rest \<le> 10"
    using Cons.prems(3) by (simp add: st)
  have ih: "fst (checks ip rest (snd ?r)) = replicate (length rest) False \<and>
      timestampsOf (snd (checks ip rest (snd ?r))) ip = timestampsOf (snd ?r) ip @ rest"
    by (rule Cons.IH[OF p1 p2 p3])
  show ?case
    using adm ih st by (simp add: split_beta Let_def)
qed

lemma eleventh_rejected:
  assumes fresh: "timestampsOf m ip = []"
    and len: "length ts = 10"
    and within: "\<forall>t\<in>set (ts @ [t11]). \<forall>u\<in>set (ts @ [t11]). u - t < 60000"
  shows "fst (checks ip (ts @ [t11]) m) = replicate 10 False @ [True]"
proof -
  have a: "fst (checks ip ts m) = replicate (length ts) False \<and>
      timestampsOf (snd (checks ip ts m)) ip = timestampsOf m ip @ ts"
    using fresh len within by (intro checks_admitted) auto
  let ?m1 = "snd (checks ip ts m)"
  have s: "timestampsOf ?m1 ip = ts" using a fresh by simp
  have keep: "filter (\<lambda>t. t11 - t < 60000) ts = ts"
    using within by (intro filter_all) simp
  have "fst (isRateLimited ip t11 ?m1)"
    by (simp add: isRateLimited_fst s keep len)
  then show ?thesis
    using a len by (simp add: checks_append split_beta Let_def)
qed






lemma POST_limited:
  "apiKeyOf raw \<noteq> [] \<Longrightarrow> fst (isRateLimited (clientIp fwd) now m) \<Longrightarrow>
   POST fetch raw fwd body now m =
     \<lparr>answer = Failure rate_limited MsgRateLimited None 429,
      rateMap = snd (isRateLimited (clientIp fwd) now m), sent = [], logged = None\<rparr>"
  by (cases "isRateLimited (clientIp fwd) now m") (simp add: POST_def Let_def)




section \<open>Runs on concrete inputs\<close>

lemma callGemini_scripted:
  "n < length rs \<Longrightarrow> rs ! n = okResponse (geminiBody t fr) \<Longrightarrow> trim t = t \<Longrightarrow> t \<noteq> [] \<Longrightarrow>
   fr \<noteq> [] \<Longrightarrow>
   callGemini (scripted rs) n cfg key ms =
     Inr \<lparr>resultText = Some t, finishReason = Str fr, rawData = Some (geminiBody t fr)\<rparr>"
  by (rule callGemini_ok) (simp_all add: scripted_def)

lemma tryModel_accept_first:
  assumes "callGemini fetch (length (calls st)) cfg key [userTurn up] = Inr r"
    "resultText r = Some t" "t \<noteq> []" "finishReason r \<noteq> Str (js ''MAX_TOKENS'')"
    "isValidLength t"
  shows "tryModel fetch key up cfg st =
     (True, (trackBest t (afterFirstCall cfg key up st))
              \<lparr>generatedTrivia := Some t, usedModel := name cfg\<rparr>)"
  using assms(5) by (simp add: tryModel_retry[OF assms(1-4)] retryLoop_done)

lemma gates_open:
  "apiKeyOf (Some (js ''key'')) = js ''key''"
  "js ''key'' \<noteq> []"
  "\<not> fst (isRateLimited (clientIp None) 0 Map.empty)"
  "readKeyword (Some (Obj [(js ''keyword'', Str (js '' tea ''))])) = Inr (js ''tea'')"
  "js ''tea'' \<noteq> []" "length (js ''tea'') \<le> 30"
  by (simp_all add: apiKeyOf_def trim_def js_def isWhiteSpace_def isRateLimited_def
        RATE_LIMIT_PER_MINUTE_def readKeyword_def Let_def)

lemma finish_reasons_differ:
  "js ''STOP'' \<noteq> js ''MAX_TOKENS''" "js ''STOP'' \<noteq> []" "js ''MAX_TOKENS'' \<noteq> []"
  "js ''NOT_FOUND'' \<noteq> js ''MAX_TOKENS''"
  by (simp_all add: js_def)

lemma text_ok:
  "trim (replicate n (0x3042 :: 16 word)) = replicate n 0x3042"
  by (rule trim_replicate) (simp add: isWhiteSpace_def)

text \<open>
  C1. A successful answer has a valid keyword, and its trivia either has 70 to 100
  characters, with \<open>model\<close> the name of the configuration that produced it, or is the
  fallback (\<open>model = "fallback"\<close>) with at least 10 characters. An answer that is not the
  fallback has 70 to 100 characters.
\<close>

theorem success_in_range_or_fallback:
  assumes "answer (POST fetch raw fwd body now m) = Success t kw r mdl"
  shows "readKeyword body = Inr kw \<and> kw \<noteq> [] \<and> length kw \<le> 30
    \<and> ((70 \<le> length t \<and> length t \<le> 100
         \<and> (\<exists>cfg\<in>set MODEL_CONFIGS. mdl = name cfg
               \<and> producedBy fetch (sent (POST fetch raw fwd body now m)) cfg t))
        \<or> (mdl = js ''fallback'' \<and> 10 \<le> length t))
    \<and> (mdl \<noteq> js ''fallback'' \<longrightarrow> 70 \<le> length t \<and> length t \<le> 100)"
proof -
  let ?g = "generate fetch (apiKeyOf raw) kw MODEL_CONFIGS"
  from POST_Success[OF assms]
  have kw: "readKeyword body = Inr kw" "kw \<noteq> []" "length kw \<le> 30"
    and g: "generatedTrivia ?g = Some t" "mdl = usedModel ?g"
      "sent (POST fetch raw fwd body now m) = calls ?g"
    by simp_all
  from generate_accepted[OF g(1)]
  have "(isValidLength t
          \<and> (\<exists>cfg\<in>set MODEL_CONFIGS. usedModel ?g = name cfg
               \<and> producedBy fetch (calls ?g) cfg t))
         \<or> (usedModel ?g = js ''fallback'' \<and> 10 \<le> length t)" .
  then show ?thesis
    using kw g(2,3) by (auto simp: isValidLength_def Let_def)
qed

theorem success_in_range_or_fallback_witness:
  "answer (POST (scripted [okResponse (geminiBody (replicate 80 0x3042) (js ''STOP''))])
             (Some (js ''key'')) None (Some (Obj [(js ''keyword'', Str (js '' tea ''))])) 0 Map.empty)
     = Success (replicate 80 0x3042) (js ''tea'') 0 (js ''gemini-2.0-flash'')
   \<and> producedBy (scripted [okResponse (geminiBody (replicate 80 0x3042) (js ''STOP''))])
       (sent (POST (scripted [okResponse (geminiBody (replicate 80 0x3042) (js ''STOP''))])
             (Some (js ''key'')) None (Some (Obj [(js ''keyword'', Str (js '' tea ''))])) 0 Map.empty))
       (hd MODEL_CONFIGS) (replicate 80 0x3042)"
proof -
  let ?fetch = "scripted [okResponse (geminiBody (replicate 80 0x3042) (js ''STOP''))]"
  let ?t = "replicate 80 (0x3042 :: 16 word)"
  let ?P = "POST ?fetch (Some (js ''key'')) None (Some (Obj [(js ''keyword'', Str (js '' tea ''))])) 0
              Map.empty"
  let ?up = "buildUserPrompt (js ''tea'')"
  have call: "callGemini ?fetch (length (calls initial)) (hd MODEL_CONFIGS) (js ''key'') [userTurn ?up]
      = Inr \<lparr>resultText = Some ?t, finishReason = Str (js ''STOP''),
             rawData = Some (geminiBody ?t (js ''STOP''))\<rparr>"
    by (rule callGemini_scripted) (simp_all add: initial_def text_ok finish_reasons_differ)
  have one: "tryModel ?fetch (js ''key'') ?up (hd MODEL_CONFIGS) initial =
      (True, (trackBest ?t (afterFirstCall (hd MODEL_CONFIGS) (js ''key'') ?up initial))
               \<lparr>generatedTrivia := Some ?t, usedModel := name (hd MODEL_CONFIGS)\<rparr>)"
    by (rule tryModel_accept_first[OF call])
       (simp_all add: finish_reasons_differ isValidLength_def)
  have gen: "generate ?fetch (js ''key'') (js ''tea'') MODEL_CONFIGS =
      (trackBest ?t (afterFirstCall (hd MODEL_CONFIGS) (js ''key'') ?up initial))
               \<lparr>generatedTrivia := Some ?t, usedModel := name (hd MODEL_CONFIGS)\<rparr>"
    using one
    by (simp add: generate_outer MODEL_CONFIGS_def useFallback_valid isValidLength_def)
  have run: "answer ?P = Success ?t (js ''tea'') 0 (js ''gemini-2.0-flash'')"
    by (simp add: POST_generate gates_open gen) (simp add: initial_def MODEL_CONFIGS_def)
  from success_in_range_or_fallback[OF run] run
  show ?thesis
    by (auto simp: MODEL_CONFIGS_def js_def)
qed

lemmas run_simps = generate_def MODEL_CONFIGS_def tryModel_def invoke_def retryLoop.simps
  callGemini_def scripted_def okResponse_def notFoundResponse_def ok_def
  extractText_geminiBody getFinishReason_geminiBody text_ok finish_reasons_differ
  isValidLength_def trackBest_def useFallback_def Let_def

section \<open>One correction\<close>

text \<open>
  C7. When the first call to the first configuration gives a candidate of 60 characters,
  not truncated, and the correction call that follows gives one of 85 characters, not
  truncated, the request succeeds with the 85 characters as trivia, the first
  configuration as model and \<open>retries = 1\<close>, after exactly these two calls.
\<close>

theorem one_correction_accepted:
  assumes "apiKeyOf raw \<noteq> []" "\<not> fst (isRateLimited (clientIp fwd) now m)"
    "readKeyword body = Inr kw" "kw \<noteq> []" "length kw \<le> 30"
    and first: "callGemini fetch 0 (hd MODEL_CONFIGS) (apiKeyOf raw)
        [userTurn (buildUserPrompt kw)] = Inr r0"
      "resultText r0 = Some c0" "length c0 = 60" "finishReason r0 \<noteq> Str (js ''MAX_TOKENS'')"
    and second: "callGemini fetch 1 (hd MODEL_CONFIGS) (apiKeyOf raw)
        ([userTurn (buildUserPrompt kw)] @ retryTurns c0) = Inr r1"
      "resultText r1 = Some c1" "length c1 = 85" "finishReason r1 \<noteq> Str (js ''MAX_TOKENS'')"
  shows "answer (POST fetch raw fwd body now m) = Success c1 kw 1 (name (hd MODEL_CONFIGS))
    \<and> name (hd MODEL_CONFIGS) = js ''gemini-2.0-flash''
    \<and> sent (POST fetch raw fwd body now m) =
        [mkRequest (hd MODEL_CONFIGS) (apiKeyOf raw) [userTurn (buildUserPrompt kw)],
         mkRequest (hd MODEL_CONFIGS) (apiKeyOf raw)
           ([userTurn (buildUserPrompt kw)] @ retryTurns c0)]"
proof -
  let ?cfg = "hd MODEL_CONFIGS" and ?key = "apiKeyOf raw" and ?up = "buildUserPrompt kw"
  let ?st1 = "trackBest c0 (afterFirstCall ?cfg ?key ?up initial)"
  let ?st2 = "trackBest c1 (afterRetryCall ?cfg ?key c0 [userTurn ?up] ?st1)"
  have c0: "c0 \<noteq> []" "\<not> isValidLength c0" using first(3) by (auto simp: isValidLength_def)
  have c1: "c1 \<noteq> []" "isValidLength c1" using second(3) by (auto simp: isValidLength_def)
  have f: "callGemini fetch (length (calls initial)) ?cfg ?key [userTurn ?up] = Inr r0"
    using first(1) by (simp add: initial_def)
  have s: "callGemini fetch (length (calls ?st1)) ?cfg ?key ([userTurn ?up] @ retryTurns c0) = Inr r1"
    using second(1) by (simp add: initial_def)
  have loop: "retryLoop fetch ?cfg ?key 0 c0 [userTurn ?up] ?st1 = (Inr c1, ?st2)"
    using retryLoop_next[OF _ c0(2) s second(2) c1(1) second(4), of 0] c1(2)
    by (simp add: retryLoop_done)
  have one: "tryModel fetch ?key ?up ?cfg initial =
      (True, ?st2\<lparr>generatedTrivia := Some c1, usedModel := name ?cfg\<rparr>)"
    using c1(2) by (simp add: tryModel_retry[OF f first(2) c0(1) first(4)] loop)
  have gen: "generate fetch ?key kw MODEL_CONFIGS =
      ?st2\<lparr>generatedTrivia := Some c1, usedModel := name ?cfg\<rparr>"
    using one c1(2)
    by (simp add: generate_outer MODEL_CONFIGS_def useFallback_valid)
  show ?thesis
    using c1(1) by (simp add: POST_generate[OF assms(1-5)] gen)
      (simp add: initial_def MODEL_CONFIGS_def)
qed

theorem one_correction_accepted_witness:
  "answer (POST (scripted [okResponse (geminiBody (replicate 60 0x3042) (js ''STOP'')),
                           okResponse (geminiBody (replicate 85 0x3042) (js ''STOP''))])
             (Some (js ''key'')) None (Some (Obj [(js ''keyword'', Str (js '' tea ''))])) 0 Map.empty)
     = Success (replicate 85 0x3042) (js ''tea'') 1 (js ''gemini-2.0-flash'')"
proof -
  let ?fetch = "scripted [okResponse (geminiBody (replicate 60 0x3042) (js ''STOP'')),
                          okResponse (geminiBody (replicate 85 0x3042) (js ''STOP''))]"
  have first: "callGemini ?fetch 0 (hd MODEL_CONFIGS) (apiKeyOf (Some (js ''key'')))
      [userTurn (buildUserPrompt (js ''tea''))]
      = Inr \<lparr>resultText = Some (replicate 60 0x3042), finishReason = Str (js ''STOP''),
             rawData = Some (geminiBody (replicate 60 0x3042) (js ''STOP''))\<rparr>"
    by (rule callGemini_scripted) (simp_all add: text_ok finish_reasons_differ)
  have second: "callGemini ?fetch 1 (hd MODEL_CONFIGS) (apiKeyOf (Some (js ''key'')))
      ([userTurn (buildUserPrompt (js ''tea''))] @ retryTurns (replicate 60 0x3042))
      = Inr \<lparr>resultText = Some (replicate 85 0x3042), finishReason = Str (js ''STOP''),
             rawData = Some (geminiBody (replicate 85 0x3042) (js ''STOP''))\<rparr>"
    by (rule callGemini_scripted) (simp_all add: text_ok finish_reasons_differ)
  have "answer (POST ?fetch (Some (js ''key'')) None
                 (Some (Obj [(js ''keyword'', Str (js '' tea ''))])) 0 Map.empty)
      = Success (replicate 85 0x3042) (js ''tea'') 1 (name (hd MODEL_CONFIGS))
    \<and> name (hd MODEL_CONFIGS) = js ''gemini-2.0-flash''"
    using one_correction_accepted[of "Some (js ''key'')" None 0 Map.empty
        "Some (Obj [(js ''keyword'', Str (js '' tea ''))])" "js ''tea''", OF _ _ _ _ _ first _ _ _ second]
    by (simp add: gates_open finish_reasons_differ)
  then show ?thesis by simp
qed

section \<open>The retries counter\<close>

lemma length_filter_disjoint:
  "(\<And>x. \<not> (A x \<and> B x)) \<Longrightarrow>
   length (filter A xs) + length (filter B xs) = length (filter (\<lambda>x. A x \<or> B x) xs)"
  by (induction xs) auto

lemma sum_over_distinct:
  "distinct cs \<Longrightarrow>
   (\<Sum>c\<leftarrow>cs. length (filter (\<lambda>q. f q = c \<and> P q) qs))
     = length (filter (\<lambda>q. f q \<in> set cs \<and> P q) qs)"
proof (induction cs)
  case Nil
  then show ?case by simp
next
  case (Cons c cs)
  have "length (filter (\<lambda>q. f q = c \<and> P q) qs) + length (filter (\<lambda>q. f q \<in> set cs \<and> P q) qs)
      = length (filter (\<lambda>q. (f q = c \<and> P q) \<or> (f q \<in> set cs \<and> P q)) qs)"
    using Cons.prems by (intro length_filter_disjoint) auto
  also have "\<dots> = length (filter (\<lambda>q. f q \<in> set (c # cs) \<and> P q) qs)"
    by (intro arg_cong[where f = length] filter_cong) auto
  finally show ?case using Cons by simp
qed

lemma distinct_MODEL_CONFIGS: "distinct MODEL_CONFIGS"
  by (simp add: MODEL_CONFIGS_def js_def)

text \<open>
  C10. The \<open>retries\<close> of a successful answer is the number of correction calls among all
  the requests the run sent to the provider, that is, the sum over all configurations of
  the correction calls made for each, whether the configuration was accepted or left
  behind.
\<close>

theorem retries_cumulative:
  assumes "answer (POST fetch raw fwd body now m) = Success t kw r mdl"
  shows "r = length (filter isCorrection (sent (POST fetch raw fwd body now m)))
    \<and> r = (\<Sum>cfg\<leftarrow>MODEL_CONFIGS.
             length (filter (\<lambda>q. config q = cfg \<and> isCorrection q)
                      (sent (POST fetch raw fwd body now m))))"
proof -
  let ?g = "generate fetch (apiKeyOf raw) kw MODEL_CONFIGS"
  from POST_Success[OF assms]
  have r: "r = retries ?g" and s: "sent (POST fetch raw fwd body now m) = calls ?g"
    by simp_all
  have g: "retries ?g = length (filter isCorrection (calls ?g))"
    "\<forall>q\<in>set (calls ?g). config q \<in> set MODEL_CONFIGS"
    using generate_retries[of fetch "apiKeyOf raw" kw MODEL_CONFIGS] by simp_all
  have "filter (\<lambda>q. config q \<in> set MODEL_CONFIGS \<and> isCorrection q) (calls ?g)
      = filter isCorrection (calls ?g)"
    using g(2) by (intro filter_cong) auto
  then have "(\<Sum>cfg\<leftarrow>MODEL_CONFIGS. length (filter (\<lambda>q. config q = cfg \<and> isCorrection q) (calls ?g)))
      = length (filter isCorrection (calls ?g))"
    by (simp add: sum_over_distinct[OF distinct_MODEL_CONFIGS])
  then show ?thesis using r s g(1) by simp
qed

text \<open>
  The first configuration answers four times with 60 characters and is left behind after
  its three corrections; the second is accepted at its first call. The answer reports
  three retries, none of them made for the configuration it names.
\<close>

theorem retries_cumulative_witness:
  "answer (POST (scripted [okResponse (geminiBody (replicate 60 0x3042) (js ''STOP'')),
                           okResponse (geminiBody (replicate 60 0x3042) (js ''STOP'')),
                           okResponse (geminiBody (replicate 60 0x3042) (js ''STOP'')),
                           okResponse (geminiBody (replicate 60 0x3042) (js ''STOP'')),
                           okResponse (geminiBody (replicate 80 0x3042) (js ''STOP''))])
             (Some (js ''key'')) None (Some (Obj [(js ''keyword'', Str (js '' tea ''))])) 0 Map.empty)
     = Success (replicate 80 0x3042) (js ''tea'') 3 (js ''gemini-2.5-flash'')
   \<and> length (filter isCorrection
        (sent (POST (scripted [okResponse (geminiBody (replicate 60 0x3042) (js ''STOP'')),
                           okResponse (geminiBody (replicate 60 0x3042) (js ''STOP'')),
                           okResponse (geminiBody (replicate 60 0x3042) (js ''STOP'')),
                           okResponse (geminiBody (replicate 60 0x3042) (js ''STOP'')),
                           okResponse (geminiBody (replicate 80 0x3042) (js ''STOP''))])
             (Some (js ''key'')) None (Some (Obj [(js ''keyword'', Str (js '' tea ''))])) 0 Map.empty)))
     = 3
   \<and> filter (\<lambda>q. name (config q) = js ''gemini-2.5-flash'' \<and> isCorrection q)
        (sent (POST (scripted [okResponse (geminiBody (replicate 60 0x3042) (js ''STOP'')),
                           okResponse (geminiBody (replicate 60 0x3042) (js ''STOP'')),
                           okResponse (geminiBody (replicate 60 0x3042) (js ''STOP'')),
                           okResponse (geminiBody (replicate 60 0x3042) (js ''STOP'')),
                           okResponse (geminiBody (replicate 80 0x3042) (js ''STOP''))])
             (Some (js ''key'')) None (Some (Obj [(js ''keyword'', Str (js '' tea ''))])) 0 Map.empty))
     = []"
proof -
  let ?fetch = "scripted [okResponse (geminiBody (replicate 60 0x3042) (js ''STOP'')),
                           okResponse (geminiBody (replicate 60 0x3042) (js ''STOP'')),
                           okResponse (geminiBody (replicate 60 0x3042) (js ''STOP'')),
                           okResponse (geminiBody (replicate 60 0x3042) (js ''STOP'')),
                           okResponse (geminiBody (replicate 80 0x3042) (js ''STOP''))]"
  let ?g = "generate ?fetch (js ''key'') (js ''tea'') MODEL_CONFIGS"
  have g: "generatedTrivia ?g = Some (replicate 80 0x3042)" "retries ?g = 3"
    "usedModel ?g = js ''gemini-2.5-flash''"
    by (simp_all add: run_simps)
  have run: "answer (POST ?fetch (Some (js ''key'')) None
                 (Some (Obj [(js ''keyword'', Str (js '' tea ''))])) 0 Map.empty)
      = Success (replicate 80 0x3042) (js ''tea'') 3 (js ''gemini-2.5-flash'')"
    by (simp add: POST_generate gates_open g)
  have own: "filter (\<lambda>q. name (config q) = js ''gemini-2.5-flash'' \<and> isCorrection q) (calls ?g) = []"
    by (simp add: run_simps isCorrection_def js_def)
  have sent: "sent (POST ?fetch (Some (js ''key'')) None
                 (Some (Obj [(js ''keyword'', Str (js '' tea ''))])) 0 Map.empty) = calls ?g"
    by (simp add: POST_generate gates_open)
  from retries_cumulative[OF run] run own show ?thesis by (simp add: sent)
qed

section \<open>Models that are not found\<close>







section \<open>Truncated answers\<close>

lemma trackBest_longer: "trackBest t st = st\<lparr>bestCandidate := longer (bestCandidate st) t\<rparr>"
  by (simp add: trackBest_def longer_def split: option.splits)

lemma outerLoop_all_truncated:
  "length ts = length configs \<Longrightarrow>
   (\<forall>i<length configs. \<exists>r.
      callGemini fetch (length (calls st) + i) (configs ! i) key [userTurn up] = Inr r
      \<and> resultText r = Some (ts ! i) \<and> ts ! i \<noteq> []
      \<and> finishReason r = Str (js ''MAX_TOKENS'')) \<Longrightarrow>
   outerLoop fetch key up configs st =
     st\<lparr>calls := calls st @ map (\<lambda>c. mkRequest c key [userTurn up]) configs,
        bestCandidate := foldl longer (bestCandidate st) ts,
        lastError := (if configs = [] then lastError st else Some TruncatedError)\<rparr>"
proof (induction configs arbitrary: st ts)
  case Nil
  then show ?case by simp
next
  case (Cons cfg rest)
  from Cons.prems(1) obtain t ts' where ts: "ts = t # ts'" "length ts' = length rest"
    by (cases ts) auto
  from Cons.prems(2)[rule_format, of 0] ts obtain r where r:
    "callGemini fetch (length (calls st)) cfg key [userTurn up] = Inr r"
    "resultText r = Some t" "t \<noteq> []" "finishReason r = Str (js ''MAX_TOKENS'')"
    by auto
  let ?st1 = "(trackBest t (afterFirstCall cfg key up st))\<lparr>lastError := Some TruncatedError\<rparr>"
  have one: "tryModel fetch key up cfg st = (False, ?st1)"
    by (rule tryModel_truncated[OF r])
  have "\<forall>i<length rest. \<exists>r.
      callGemini fetch (length (calls ?st1) + i) (rest ! i) key [userTurn up] = Inr r
      \<and> resultText r = Some (ts' ! i) \<and> ts' ! i \<noteq> []
      \<and> finishReason r = Str (js ''MAX_TOKENS'')"
  proof (intro allI impI)
    fix i assume "i < length rest"
    then show "\<exists>r. callGemini fetch (length (calls ?st1) + i) (rest ! i) key [userTurn up] = Inr r
      \<and> resultText r = Some (ts' ! i) \<and> ts' ! i \<noteq> []
      \<and> finishReason r = Str (js ''MAX_TOKENS'')"
      using Cons.prems(2)[rule_format, of "Suc i"] ts by simp
  qed
  from Cons.IH[OF ts(2) this] show ?case
    by (simp add: one ts trackBest_longer afterFirstCall_def)
qed

lemma foldl_longer_snoc: "foldl longer b (ts @ [t]) = longer (foldl longer b ts) t"
  by simp

lemma longest_first:
  "ts \<noteq> [] \<Longrightarrow> \<forall>t\<in>set ts. t \<noteq> [] \<Longrightarrow>
   \<exists>k<length ts. foldl longer None ts = Some (ts ! k)
      \<and> (\<forall>i<length ts. length (ts ! i) \<le> length (ts ! k))"
proof (induction ts rule: rev_induct)
  case Nil
  then show ?case by simp
next
  case (snoc t ts)
  show ?case
  proof (cases "ts = []")
    case True
    then show ?thesis by (simp add: longer_def)
  next
    case False
    with snoc obtain k where k: "k < length ts" "foldl longer None ts = Some (ts ! k)"
      "\<forall>i<length ts. length (ts ! i) \<le> length (ts ! k)"
      by auto
    have ne: "ts ! k \<noteq> []" using snoc.prems(2) k(1) by simp
    show ?thesis
    proof (cases "length (ts ! k) < length t")
      case True
      have "foldl longer None (ts @ [t]) = Some ((ts @ [t]) ! length ts)"
        using k(2) True by (simp add: longer_def)
      moreover have "\<forall>i<length (ts @ [t]). length ((ts @ [t]) ! i) \<le> length ((ts @ [t]) ! length ts)"
        using k(3) True by (auto simp: nth_append less_Suc_eq)
      ultimately show ?thesis by (intro exI[of _ "length ts"]) simp
    next
      case False
      have "foldl longer None (ts @ [t]) = Some ((ts @ [t]) ! k)"
        using k(1,2) False ne by (simp add: longer_def nth_append)
      moreover have "\<forall>i<length (ts @ [t]). length ((ts @ [t]) ! i) \<le> length ((ts @ [t]) ! k)"
        using k(1,3) False by (auto simp: nth_append less_Suc_eq)
      ultimately show ?thesis using k(1) by (intro exI[of _ k]) simp
    qed
  qed
qed

text \<open>
  C2. When the first call of a configuration returns a text with \<open>MAX_TOKENS\<close>, the text
  becomes the best candidate only if there is none yet or it is strictly longer than the
  one there is; no correction call is made, the error is recorded, and the loop goes on
  to the next configuration. When the first call of every configuration is truncated, there
  is one call per configuration, and the answer is the longest truncated text with
  \<open>model = "fallback"\<close> and \<open>retries = 0\<close> if it has at least 10 characters, and
  \<open>generation_failed\<close> otherwise: never an accepted answer of a configuration.
\<close>

theorem truncated_never_accepted:
  "(callGemini fetch (length (calls st)) cfg key [userTurn up] = Inr r
      \<and> resultText r = Some t \<and> t \<noteq> [] \<and> finishReason r = Str (js ''MAX_TOKENS'')
    \<longrightarrow> \<not> fst (tryModel fetch key up cfg st)
        \<and> calls (snd (tryModel fetch key up cfg st)) = calls st @ [mkRequest cfg key [userTurn up]]
        \<and> retries (snd (tryModel fetch key up cfg st)) = retries st
        \<and> generatedTrivia (snd (tryModel fetch key up cfg st)) = generatedTrivia st
        \<and> lastError (snd (tryModel fetch key up cfg st)) = Some TruncatedError
        \<and> bestCandidate (snd (tryModel fetch key up cfg st)) =
            (case bestCandidate st of
               None \<Rightarrow> Some t
             | Some best \<Rightarrow> if best = [] \<or> length best < length t then Some t else Some best))
   \<and> (apiKeyOf raw \<noteq> [] \<and> \<not> fst (isRateLimited (clientIp fwd) now m)
        \<and> readKeyword body = Inr kw \<and> kw \<noteq> [] \<and> length kw \<le> 30
        \<and> length ts = length MODEL_CONFIGS
        \<and> (\<forall>i<length MODEL_CONFIGS. \<exists>r.
              callGemini fetch i (MODEL_CONFIGS ! i) (apiKeyOf raw) [userTurn (buildUserPrompt kw)]
                = Inr r
              \<and> resultText r = Some (ts ! i) \<and> ts ! i \<noteq> []
              \<and> finishReason r = Str (js ''MAX_TOKENS''))
    \<longrightarrow> (\<exists>k<length ts. (\<forall>i<length ts. length (ts ! i) \<le> length (ts ! k))
            \<and> answer (POST fetch raw fwd body now m) =
                (if 10 \<le> length (ts ! k) then Success (ts ! k) kw 0 (js ''fallback'')
                 else Failure generation_failed MsgGenerationFailed (Some TruncatedError) 500))
        \<and> sent (POST fetch raw fwd body now m)
            = map (\<lambda>c. mkRequest c (apiKeyOf raw) [userTurn (buildUserPrompt kw)]) MODEL_CONFIGS)"
proof (intro conjI impI)
  assume a: "callGemini fetch (length (calls st)) cfg key [userTurn up] = Inr r
      \<and> resultText r = Some t \<and> t \<noteq> [] \<and> finishReason r = Str (js ''MAX_TOKENS'')"
  then have one: "tryModel fetch key up cfg st =
      (False, (trackBest t (afterFirstCall cfg key up st))\<lparr>lastError := Some TruncatedError\<rparr>)"
    by (simp add: tryModel_truncated)
  show "\<not> fst (tryModel fetch key up cfg st)"
    "calls (snd (tryModel fetch key up cfg st)) = calls st @ [mkRequest cfg key [userTurn up]]"
    "retries (snd (tryModel fetch key up cfg st)) = retries st"
    "generatedTrivia (snd (tryModel fetch key up cfg st)) = generatedTrivia st"
    "lastError (snd (tryModel fetch key up cfg st)) = Some TruncatedError"
    "bestCandidate (snd (tryModel fetch key up cfg st)) =
            (case bestCandidate st of
               None \<Rightarrow> Some t
             | Some best \<Rightarrow> if best = [] \<or> length best < length t then Some t else Some best)"
    by (simp_all add: one) (simp add: trackBest_def split: option.splits)
next
  assume a: "apiKeyOf raw \<noteq> [] \<and> \<not> fst (isRateLimited (clientIp fwd) now m)
        \<and> readKeyword body = Inr kw \<and> kw \<noteq> [] \<and> length kw \<le> 30
        \<and> length ts = length MODEL_CONFIGS
        \<and> (\<forall>i<length MODEL_CONFIGS. \<exists>r.
              callGemini fetch i (MODEL_CONFIGS ! i) (apiKeyOf raw) [userTurn (buildUserPrompt kw)]
                = Inr r
              \<and> resultText r = Some (ts ! i) \<and> ts ! i \<noteq> []
              \<and> finishReason r = Str (js ''MAX_TOKENS''))"
  let ?key = "apiKeyOf raw" and ?up = "buildUserPrompt kw"
  let ?g = "generate fetch ?key kw MODEL_CONFIGS"
  have gates: "apiKeyOf raw \<noteq> []" "\<not> fst (isRateLimited (clientIp fwd) now m)"
    "readKeyword body = Inr kw" "kw \<noteq> []" "length kw \<le> 30"
    using a by simp_all
  have len: "length ts = length MODEL_CONFIGS" using a by simp
  have all: "\<forall>i<length MODEL_CONFIGS. \<exists>r.
      callGemini fetch (length (calls initial) + i) (MODEL_CONFIGS ! i) ?key [userTurn ?up] = Inr r
      \<and> resultText r = Some (ts ! i) \<and> ts ! i \<noteq> []
      \<and> finishReason r = Str (js ''MAX_TOKENS'')"
    using a by (simp add: initial_def)
  have o: "outerLoop fetch ?key ?up MODEL_CONFIGS initial =
     initial\<lparr>calls := calls initial @ map (\<lambda>c. mkRequest c ?key [userTurn ?up]) MODEL_CONFIGS,
        bestCandidate := foldl longer (bestCandidate initial) ts,
        lastError := (if MODEL_CONFIGS = [] then lastError initial else Some TruncatedError)\<rparr>"
    by (rule outerLoop_all_truncated[OF len all])
  have ne: "ts \<noteq> []" using len by (auto simp: MODEL_CONFIGS_def)
  have nonempty: "\<forall>t\<in>set ts. t \<noteq> []"
    using a len by (auto simp: in_set_conv_nth)
  from longest_first[OF ne nonempty] obtain k where k: "k < length ts"
    "foldl longer None ts = Some (ts ! k)" "\<forall>i<length ts. length (ts ! i) \<le> length (ts ! k)"
    by blast
  have tk: "ts ! k \<noteq> []" using nonempty k(1) by simp
  have f: "generatedTrivia ?g = (if 10 \<le> length (ts ! k) then Some (ts ! k) else None)"
    "10 \<le> length (ts ! k) \<longrightarrow> usedModel ?g = js ''fallback''"
    "lastError ?g = Some TruncatedError" "retries ?g = 0"
    "calls ?g = map (\<lambda>c. mkRequest c ?key [userTurn ?up]) MODEL_CONFIGS"
  proof -
    have g: "?g = useFallback
        (initial\<lparr>calls := calls initial @ map (\<lambda>c. mkRequest c ?key [userTurn ?up]) MODEL_CONFIGS,
           bestCandidate := foldl longer (bestCandidate initial) ts,
           lastError := (if MODEL_CONFIGS = [] then lastError initial else Some TruncatedError)\<rparr>)"
      by (simp only: generate_outer o)
    have b: "foldl longer (bestCandidate initial) ts = Some (ts ! k)"
      using k(2) by (simp add: initial_def)
    have m: "MODEL_CONFIGS \<noteq> []" by (simp add: MODEL_CONFIGS_def)
    show "generatedTrivia ?g = (if 10 \<le> length (ts ! k) then Some (ts ! k) else None)"
      "10 \<le> length (ts ! k) \<longrightarrow> usedModel ?g = js ''fallback''"
      "lastError ?g = Some TruncatedError" "retries ?g = 0"
      "calls ?g = map (\<lambda>c. mkRequest c ?key [userTurn ?up]) MODEL_CONFIGS"
      using tk m by (simp_all add: g b useFallback_def) (simp_all add: initial_def)
  qed
  have "answer (POST fetch raw fwd body now m) =
      (if 10 \<le> length (ts ! k) then Success (ts ! k) kw 0 (js ''fallback'')
       else Failure generation_failed MsgGenerationFailed (Some TruncatedError) 500)"
    using tk by (simp add: POST_generate[OF gates] f)
  then show "\<exists>k<length ts. (\<forall>i<length ts. length (ts ! i) \<le> length (ts ! k))
            \<and> answer (POST fetch raw fwd body now m) =
                (if 10 \<le> length (ts ! k) then Success (ts ! k) kw 0 (js ''fallback'')
                 else Failure generation_failed MsgGenerationFailed (Some TruncatedError) 500)"
    using k(1,3) by blast
  show "sent (POST fetch raw fwd body now m)
      = map (\<lambda>c. mkRequest c ?key [userTurn ?up]) MODEL_CONFIGS"
    by (simp add: POST_generate[OF gates] f)
qed


text \<open>
  Three truncated first answers of 5, 40 and 20 characters: the answer is the one of 40
  characters, as the fallback.
\<close>

theorem truncated_never_accepted_witness:
  "answer (POST (scripted [okResponse (geminiBody (replicate 5 0x3042) (js ''MAX_TOKENS'')),
                           okResponse (geminiBody (replicate 40 0x3042) (js ''MAX_TOKENS'')),
                           okResponse (geminiBody (replicate 20 0x3042) (js ''MAX_TOKENS''))])
             (Some (js ''key'')) None (Some (Obj [(js ''keyword'', Str (js '' tea ''))])) 0 Map.empty)
     = Success (replicate 40 0x3042) (js ''tea'') 0 (js ''fallback'')
   \<and> length (sent (POST (scripted [okResponse (geminiBody (replicate 5 0x3042) (js ''MAX_TOKENS'')),
                           okResponse (geminiBody (replicate 40 0x3042) (js ''MAX_TOKENS'')),
                           okResponse (geminiBody (replicate 20 0x3042) (js ''MAX_TOKENS''))])
             (Some (js ''key'')) None (Some (Obj [(js ''keyword'', Str (js '' tea ''))])) 0 Map.empty))
     = 3
   \<and> \<not> fst (tryModel (scripted [okResponse (geminiBody (replicate 5 0x3042) (js ''MAX_TOKENS'')),
                           okResponse (geminiBody (replicate 40 0x3042) (js ''MAX_TOKENS'')),
                           okResponse (geminiBody (replicate 20 0x3042) (js ''MAX_TOKENS''))])
              (js ''key'') (buildUserPrompt (js ''tea'')) (MODEL_CONFIGS ! 0) initial)
   \<and> bestCandidate (snd (tryModel
              (scripted [okResponse (geminiBody (replicate 5 0x3042) (js ''MAX_TOKENS'')),
                           okResponse (geminiBody (replicate 40 0x3042) (js ''MAX_TOKENS'')),
                           okResponse (geminiBody (replicate 20 0x3042) (js ''MAX_TOKENS''))])
              (js ''key'') (buildUserPrompt (js ''tea'')) (MODEL_CONFIGS ! 0) initial))
     = Some (replicate 5 0x3042)"
proof -
  let ?fetch = "scripted [okResponse (geminiBody (replicate 5 0x3042) (js ''MAX_TOKENS'')),
                           okResponse (geminiBody (replicate 40 0x3042) (js ''MAX_TOKENS'')),
                           okResponse (geminiBody (replicate 20 0x3042) (js ''MAX_TOKENS''))]"
  let ?ts = "[replicate 5 (0x3042 :: 16 word), replicate 40 0x3042, replicate 20 0x3042]"
  let ?P = "POST ?fetch (Some (js ''key'')) None (Some (Obj [(js ''keyword'', Str (js '' tea ''))])) 0
              Map.empty"
  have call: "callGemini ?fetch i (MODEL_CONFIGS ! i) (apiKeyOf (Some (js ''key'')))
        [userTurn (buildUserPrompt (js ''tea''))]
      = Inr \<lparr>resultText = Some (?ts ! i), finishReason = Str (js ''MAX_TOKENS''),
             rawData = Some (geminiBody (?ts ! i) (js ''MAX_TOKENS''))\<rparr>"
    if "i < 3" for i
    using that
    by (intro callGemini_scripted)
       (auto simp: less_Suc_eq numeral_3_eq_3 text_ok finish_reasons_differ)
  have all: "\<forall>i<length MODEL_CONFIGS. \<exists>r.
      callGemini ?fetch i (MODEL_CONFIGS ! i) (apiKeyOf (Some (js ''key'')))
        [userTurn (buildUserPrompt (js ''tea''))] = Inr r
      \<and> resultText r = Some (?ts ! i) \<and> ?ts ! i \<noteq> []
      \<and> finishReason r = Str (js ''MAX_TOKENS'')"
  proof (intro allI impI)
    fix i assume "i < length MODEL_CONFIGS"
    then have i: "i < 3" by (simp add: MODEL_CONFIGS_def)
    then have "?ts ! i \<noteq> []" by (auto simp: less_Suc_eq numeral_3_eq_3)
    then show "\<exists>r. callGemini ?fetch i (MODEL_CONFIGS ! i) (apiKeyOf (Some (js ''key'')))
        [userTurn (buildUserPrompt (js ''tea''))] = Inr r
      \<and> resultText r = Some (?ts ! i) \<and> ?ts ! i \<noteq> []
      \<and> finishReason r = Str (js ''MAX_TOKENS'')"
      using call[OF i] by simp
  qed
  have len: "length ?ts = length MODEL_CONFIGS" by (simp add: MODEL_CONFIGS_def)
  have g: "apiKeyOf (Some (js ''key'')) \<noteq> []"
    "\<not> fst (isRateLimited (clientIp None) 0 Map.empty)"
    "readKeyword (Some (Obj [(js ''keyword'', Str (js '' tea ''))])) = Inr (js ''tea'')"
    "js ''tea'' \<noteq> []" "length (js ''tea'') \<le> 30"
    by (simp_all add: gates_open)
  from g len all
  have prem: "apiKeyOf (Some (js ''key'')) \<noteq> []
      \<and> \<not> fst (isRateLimited (clientIp None) 0 Map.empty)
      \<and> readKeyword (Some (Obj [(js ''keyword'', Str (js '' tea ''))])) = Inr (js ''tea'')
      \<and> js ''tea'' \<noteq> [] \<and> length (js ''tea'') \<le> 30
      \<and> length ?ts = length MODEL_CONFIGS
      \<and> (\<forall>i<length MODEL_CONFIGS. \<exists>r.
            callGemini ?fetch i (MODEL_CONFIGS ! i) (apiKeyOf (Some (js ''key'')))
              [userTurn (buildUserPrompt (js ''tea''))] = Inr r
            \<and> resultText r = Some (?ts ! i) \<and> ?ts ! i \<noteq> []
            \<and> finishReason r = Str (js ''MAX_TOKENS''))"
    by blast
  from truncated_never_accepted[where fetch = ?fetch and raw = "Some (js ''key'')"
      and fwd = None and now = 0 and m = Map.empty
      and body = "Some (Obj [(js ''keyword'', Str (js '' tea ''))])" and kw = "js ''tea''"
      and ts = ?ts, THEN conjunct2, THEN mp, OF prem]
  obtain k where k: "k < length ?ts" "\<forall>i<length ?ts. length (?ts ! i) \<le> length (?ts ! k)"
    "answer ?P = (if 10 \<le> length (?ts ! k) then Success (?ts ! k) (js ''tea'') 0 (js ''fallback'')
       else Failure generation_failed MsgGenerationFailed (Some TruncatedError) 500)"
    and sent: "sent ?P = map (\<lambda>c. mkRequest c (apiKeyOf (Some (js ''key'')))
        [userTurn (buildUserPrompt (js ''tea''))]) MODEL_CONFIGS"
    by blast
  from k(2)[rule_format, of 1] k(1) have "k = 1"
    by (auto simp: less_Suc_eq numeral_3_eq_3)
  then have run: "answer ?P = Success (replicate 40 0x3042) (js ''tea'') 0 (js ''fallback'')"
      "length (sent ?P) = 3"
    using k(3) sent by (simp_all add: MODEL_CONFIGS_def)
  let ?r0 = "\<lparr>resultText = Some (replicate 5 0x3042), finishReason = Str (js ''MAX_TOKENS''),
      rawData = Some (geminiBody (replicate 5 0x3042) (js ''MAX_TOKENS''))\<rparr>"
  have first: "callGemini ?fetch (length (calls initial)) (MODEL_CONFIGS ! 0)
        (apiKeyOf (Some (js ''key''))) [userTurn (buildUserPrompt (js ''tea''))] = Inr ?r0
      \<and> resultText ?r0 = Some (replicate 5 0x3042) \<and> replicate 5 (0x3042 :: 16 word) \<noteq> []
      \<and> finishReason ?r0 = Str (js ''MAX_TOKENS'')"
    using call[of 0] by (simp add: initial_def)
  note one = truncated_never_accepted[THEN conjunct1, THEN mp, OF first]
  show ?thesis
    using run one by (simp add: gates_open initial_def)
qed

section \<open>Validation and admission\<close>

lemma POST_no_key:
  "apiKeyOf raw = [] \<Longrightarrow>
   POST fetch raw fwd body now m =
     \<lparr>answer = Failure config_error MsgNoApiKey None 500, rateMap = m, sent = [], logged = None\<rparr>"
  by (simp add: POST_def)

lemma POST_invalid:
  "apiKeyOf raw \<noteq> [] \<Longrightarrow> \<not> fst (isRateLimited (clientIp fwd) now m) \<Longrightarrow>
   readKeyword body = Inr kw \<Longrightarrow> kw = [] \<or> 30 < length kw \<Longrightarrow>
   POST fetch raw fwd body now m =
     \<lparr>answer = Failure validation_error (if kw = [] then MsgEnterAWord else MsgWithin30) None 400,
      rateMap = snd (isRateLimited (clientIp fwd) now m), sent = [], logged = None\<rparr>"
  by (cases "isRateLimited (clientIp fwd) now m") (auto simp: POST_def Let_def)

lemma POST_unreadable:
  "apiKeyOf raw \<noteq> [] \<Longrightarrow> \<not> fst (isRateLimited (clientIp fwd) now m) \<Longrightarrow>
   readKeyword body = Inl e \<Longrightarrow>
   POST fetch raw fwd body now m =
     \<lparr>answer = Failure generation_failed MsgServerError (Some e) 500,
      rateMap = snd (isRateLimited (clientIp fwd) now m), sent = [], logged = None\<rparr>"
  by (cases "isRateLimited (clientIp fwd) now m") (auto simp: POST_def Let_def)

lemma POST_rateMap:
  assumes "apiKeyOf raw \<noteq> []"
  shows "rateMap (POST fetch raw fwd body now m) = snd (isRateLimited (clientIp fwd) now m)"
proof (cases "fst (isRateLimited (clientIp fwd) now m)")
  case True
  then show ?thesis using assms by (simp add: POST_limited)
next
  case False
  show ?thesis
  proof (cases "readKeyword body")
    case (Inl e)
    then show ?thesis using assms False by (simp add: POST_unreadable)
  next
    case (Inr kw)
    show ?thesis
    proof (cases "kw = [] \<or> 30 < length kw")
      case True
      then show ?thesis using assms False Inr by (simp add: POST_invalid)
    next
      case valid: False
      then show ?thesis using assms False Inr by (simp add: POST_generate)
    qed
  qed
qed

lemma POST_invalid_sent:
  assumes "readKeyword body = Inr kw" "kw = [] \<or> 30 < length kw"
  shows "sent (POST fetch raw fwd body now m) = [] \<and> logged (POST fetch raw fwd body now m) = None"
proof (cases "apiKeyOf raw = []")
  case True
  then show ?thesis by (simp add: POST_no_key)
next
  case key: False
  show ?thesis
  proof (cases "fst (isRateLimited (clientIp fwd) now m)")
    case True
    then show ?thesis using key by (simp add: POST_limited)
  next
    case False
    then show ?thesis using key assms by (simp add: POST_invalid)
  qed
qed

lemma keyword_examples:
  "readKeyword (Some (Obj [(js ''keyword'', Str (js ''  ''))])) = Inr []"
  "readKeyword (Some (Obj [(js ''keyword'', Str (replicate 31 0x3042))])) = Inr (replicate 31 0x3042)"
  "readKeyword (Some (Obj [])) = Inr []"
  by (simp_all add: readKeyword_def text_ok) (simp_all add: trim_def js_def isWhiteSpace_def)

lemma limit_examples:
  "clientIp None = js ''unknown''"
  "fst (isRateLimited (js ''unknown'') 1 [js ''unknown'' \<mapsto> [0, 0, 0, 0, 0, 0, 0, 0, 0, 0]])"
  "\<not> fst (isRateLimited (js ''unknown'') 5 Map.empty)"
  "timestampsOf Map.empty (js ''unknown'') = []"
  by (simp_all add: clientIp_def isRateLimited_def RATE_LIMIT_PER_MINUTE_def Let_def
        timestampsOf_def)

text \<open>
  C6 (counterexample). The claim: every request whose keyword is empty after trimming gets
  a validation error with status 400. A keyword of two spaces, sent by a client that is at
  its limit, gets \<open>rate_limited\<close> with status 429.
\<close>

theorem invalid_keyword_rate_limited_counterexample:
  "readKeyword (Some (Obj [(js ''keyword'', Str (js ''  ''))])) = Inr []
   \<and> answer (POST (scripted []) (Some (js ''key'')) None
               (Some (Obj [(js ''keyword'', Str (js ''  ''))])) 1
               [js ''unknown'' \<mapsto> [0, 0, 0, 0, 0, 0, 0, 0, 0, 0]])
     = Failure rate_limited MsgRateLimited None 429"
  by (simp add: keyword_examples POST_limited limit_examples gates_open)

text \<open>
  C6 (amended). For every request that gets past the API key check and the admission
  check, a keyword that is empty after trimming or longer than 30 characters gives a
  validation error (\<open>validation_error\<close>, status 400). Whatever the two checks say, no
  request with such a keyword reaches the provider, and none is logged.
\<close>

theorem invalid_keyword_rejected:
  "(apiKeyOf raw \<noteq> [] \<and> \<not> fst (isRateLimited (clientIp fwd) now m)
      \<and> readKeyword body = Inr kw \<and> (kw = [] \<or> 30 < length kw)
    \<longrightarrow> answer (POST fetch raw fwd body now m)
          = Failure validation_error (if kw = [] then MsgEnterAWord else MsgWithin30) None 400)
   \<and> (readKeyword body = Inr kw \<and> (kw = [] \<or> 30 < length kw)
    \<longrightarrow> sent (POST fetch raw fwd body now m) = []
        \<and> logged (POST fetch raw fwd body now m) = None)"
  using POST_invalid[of raw fwd now m body kw fetch] POST_invalid_sent[of body kw fetch raw fwd now m]
  by auto

theorem invalid_keyword_rejected_witness:
  "answer (POST (scripted []) (Some (js ''key'')) None
             (Some (Obj [(js ''keyword'', Str (js ''  ''))])) 5 Map.empty)
     = Failure validation_error MsgEnterAWord None 400
   \<and> answer (POST (scripted []) (Some (js ''key'')) None
             (Some (Obj [(js ''keyword'', Str (replicate 31 0x3042))])) 5 Map.empty)
     = Failure validation_error MsgWithin30 None 400
   \<and> sent (POST (scripted []) (Some (js ''key'')) None
             (Some (Obj [(js ''keyword'', Str (replicate 31 0x3042))])) 5 Map.empty) = []"
  using invalid_keyword_rejected[of "Some (js ''key'')" None 5 Map.empty
      "Some (Obj [(js ''keyword'', Str (js ''  ''))])" "[]" "scripted []"]
    invalid_keyword_rejected[of "Some (js ''key'')" None 5 Map.empty
      "Some (Obj [(js ''keyword'', Str (replicate 31 0x3042))])" "replicate 31 0x3042" "scripted []"]
  by (simp add: keyword_examples limit_examples gates_open)

text \<open>
  C9 (counterexample). The claim: a client at its limit gets \<open>rate_limited\<close> (429) even
  with an invalid keyword, and an invalid keyword from a client under its limit uses up a
  slot. With no API key set, the client at its limit gets \<open>config_error\<close> (500), and the
  request of a client under its limit records no timestamp.
\<close>

theorem admission_without_key_counterexample:
  "fst (isRateLimited (clientIp None) 1 [js ''unknown'' \<mapsto> [0, 0, 0, 0, 0, 0, 0, 0, 0, 0]])
   \<and> answer (POST (scripted []) None None (Some (Obj [(js ''keyword'', Str (js ''  ''))])) 1
               [js ''unknown'' \<mapsto> [0, 0, 0, 0, 0, 0, 0, 0, 0, 0]])
     = Failure config_error MsgNoApiKey None 500
   \<and> timestampsOf
        (rateMap (POST (scripted []) None None (Some (Obj [(js ''keyword'', Str (js ''  ''))])) 5
                    Map.empty))
        (clientIp None) = []"
  by (simp add: limit_examples POST_no_key apiKeyOf_def timestampsOf_def)

text \<open>
  C9 (amended). When the API key is set, the admission check runs before the body is
  read and the keyword validated: the rate limit map \<open>POST\<close> leaves is the one the check
  leaves, whatever the body; a client at its limit gets \<open>rate_limited\<close> (429) whatever its
  keyword; and a client under its limit with a keyword that is empty after trimming or
  longer than 30 characters gets \<open>validation_error\<close> (400) and has the time of the
  request recorded among its timestamps.
\<close>

theorem admission_before_validation:
  "apiKeyOf raw \<noteq> [] \<longrightarrow>
     rateMap (POST fetch raw fwd body now m) = snd (isRateLimited (clientIp fwd) now m)
     \<and> (fst (isRateLimited (clientIp fwd) now m)
        \<longrightarrow> answer (POST fetch raw fwd body now m) = Failure rate_limited MsgRateLimited None 429)
     \<and> (\<not> fst (isRateLimited (clientIp fwd) now m) \<and> readKeyword body = Inr kw
          \<and> (kw = [] \<or> 30 < length kw)
        \<longrightarrow> answer (POST fetch raw fwd body now m)
              = Failure validation_error (if kw = [] then MsgEnterAWord else MsgWithin30) None 400
            \<and> timestampsOf (rateMap (POST fetch raw fwd body now m)) (clientIp fwd)
              = filter (\<lambda>t. now - t < 60000) (timestampsOf m (clientIp fwd)) @ [now])"
proof (intro impI conjI)
  assume key: "apiKeyOf raw \<noteq> []"
  show r: "rateMap (POST fetch raw fwd body now m) = snd (isRateLimited (clientIp fwd) now m)"
    by (rule POST_rateMap[OF key])
  show "answer (POST fetch raw fwd body now m) = Failure rate_limited MsgRateLimited None 429"
    if "fst (isRateLimited (clientIp fwd) now m)"
    using key that by (simp add: POST_limited)
  assume a: "\<not> fst (isRateLimited (clientIp fwd) now m) \<and> readKeyword body = Inr kw
          \<and> (kw = [] \<or> 30 < length kw)"
  then show "answer (POST fetch raw fwd body now m)
      = Failure validation_error (if kw = [] then MsgEnterAWord else MsgWithin30) None 400"
    using key by (simp add: POST_invalid)
  show "timestampsOf (rateMap (POST fetch raw fwd body now m)) (clientIp fwd)
      = filter (\<lambda>t. now - t < 60000) (timestampsOf m (clientIp fwd)) @ [now]"
    using a by (simp add: r isRateLimited_stamps)
qed

theorem admission_before_validation_witness:
  "answer (POST (scripted []) (Some (js ''key'')) None
             (Some (Obj [(js ''keyword'', Str (js ''  ''))])) 1
             [js ''unknown'' \<mapsto> [0, 0, 0, 0, 0, 0, 0, 0, 0, 0]])
     = Failure rate_limited MsgRateLimited None 429
   \<and> answer (POST (scripted []) (Some (js ''key'')) None
             (Some (Obj [(js ''keyword'', Str (js ''  ''))])) 5 Map.empty)
     = Failure validation_error MsgEnterAWord None 400
   \<and> timestampsOf
        (rateMap (POST (scripted []) (Some (js ''key'')) None
             (Some (Obj [(js ''keyword'', Str (js ''  ''))])) 5 Map.empty))
        (clientIp None) = [5]"
proof -
  have key: "apiKeyOf (Some (js ''key'')) \<noteq> []" by (simp add: gates_open)
  have lim: "fst (isRateLimited (clientIp None) 1
      [js ''unknown'' \<mapsto> [0, 0, 0, 0, 0, 0, 0, 0, 0, 0]])"
    by (simp add: limit_examples)
  have under: "\<not> fst (isRateLimited (clientIp None) 5 Map.empty)
      \<and> readKeyword (Some (Obj [(js ''keyword'', Str (js ''  ''))])) = Inr []
      \<and> ([] = ([] :: jsstring) \<or> 30 < length ([] :: jsstring))"
    by (simp add: limit_examples keyword_examples)
  note a = admission_before_validation[THEN mp, OF key, THEN conjunct2, THEN conjunct1, THEN mp,
      OF lim]
  note b = admission_before_validation[THEN mp, OF key, THEN conjunct2, THEN conjunct2, THEN mp,
      OF under]
  show ?thesis
    using a[of "scripted []" "Some (Obj [(js ''keyword'', Str (js ''  ''))])"] b[of "scripted []"]
    by (simp add: limit_examples)
qed

section \<open>The bound on corrections\<close>

text \<open>
  C4. One configuration gets its first call and at most three correction calls (four
  calls at most), each correction counted in \<open>retries\<close>; over a run, \<open>retries\<close> is at
  most 3 and the calls at most 4 times the number of configurations. Every request of a
  run is a first call or the correction of the request before it: the same conversation
  with the candidate that request was answered with (out of range, not truncated) as a
  model turn and the correction prompt for its length as a user turn. The loop does
  nothing once the candidate has 70 to 100 characters or three attempts were made, and a
  correction answered with no text or with \<open>MAX_TOKENS\<close> ends it with the candidate
  unchanged.
\<close>

theorem correction_bounds:
  "(\<exists>new. calls (snd (tryModel fetch key up cfg st))
            = calls st @ mkRequest cfg key [userTurn up] # new
        \<and> length new \<le> 3
        \<and> retries (snd (tryModel fetch key up cfg st)) = retries st + length new
        \<and> (\<forall>q\<in>set new. config q = cfg \<and> isCorrection q))
   \<and> retries (generate fetch key kw configs) \<le> 3 * length configs
   \<and> length (calls (generate fetch key kw configs)) \<le> 4 * length configs
   \<and> wellFormedTrace fetch (buildUserPrompt kw) (calls (generate fetch key kw configs))
   \<and> (3 \<le> attempt \<or> isValidLength candidate
      \<longrightarrow> retryLoop fetch cfg key attempt candidate messages st = (Inr candidate, st))
   \<and> (attempt < 3 \<and> \<not> isValidLength candidate
        \<and> callGemini fetch (length (calls st)) cfg key (messages @ retryTurns candidate) = Inr r
        \<and> (\<not> present (resultText r) \<or> finishReason r = Str (js ''MAX_TOKENS''))
      \<longrightarrow> retryLoop fetch cfg key attempt candidate messages st
            = (Inr candidate,
               st\<lparr>retries := retries st + 1,
                  calls := calls st @ [mkRequest cfg key (messages @ retryTurns candidate)]\<rparr>))"
proof (intro conjI impI)
  have "modelEffect cfg key up st (snd (tryModel fetch key up cfg st))"
    by (rule tryModel_effect)
  then show "\<exists>new. calls (snd (tryModel fetch key up cfg st))
            = calls st @ mkRequest cfg key [userTurn up] # new
        \<and> length new \<le> 3
        \<and> retries (snd (tryModel fetch key up cfg st)) = retries st + length new
        \<and> (\<forall>q\<in>set new. config q = cfg \<and> isCorrection q)"
    unfolding modelEffect_def by blast
next
  show "retries (generate fetch key kw configs) \<le> 3 * length configs"
    "length (calls (generate fetch key kw configs)) \<le> 4 * length configs"
    using generate_counts[of fetch key kw configs] by simp_all
next
  show "wellFormedTrace fetch (buildUserPrompt kw) (calls (generate fetch key kw configs))"
    by (rule generate_wellFormed)
next
  assume "3 \<le> attempt \<or> isValidLength candidate"
  then show "retryLoop fetch cfg key attempt candidate messages st = (Inr candidate, st)"
    by (rule retryLoop_done)
next
  assume a: "attempt < 3 \<and> \<not> isValidLength candidate
        \<and> callGemini fetch (length (calls st)) cfg key (messages @ retryTurns candidate) = Inr r
        \<and> (\<not> present (resultText r) \<or> finishReason r = Str (js ''MAX_TOKENS''))"
  then have "attempt < 3" "\<not> isValidLength candidate"
    "callGemini fetch (length (calls st)) cfg key (messages @ retryTurns candidate) = Inr r"
    "\<not> present (resultText r) \<or> finishReason r = Str (js ''MAX_TOKENS'')"
    by blast+
  then have "retryLoop fetch cfg key attempt candidate messages st
      = (Inr candidate, afterRetryCall cfg key candidate messages st)"
    by (rule retryLoop_stop)
  then show "retryLoop fetch cfg key attempt candidate messages st
            = (Inr candidate,
               st\<lparr>retries := retries st + 1,
                  calls := calls st @ [mkRequest cfg key (messages @ retryTurns candidate)]\<rparr>)"
    by (simp add: afterRetryCall_def)
qed

text \<open>
  The first configuration answers 60 characters, then a truncated correction: the loop ends
  there with the 60 characters, after two calls and one retry counted. In the run, the
  second request is the correction of the first, and the second configuration is accepted
  at its first call.
\<close>

theorem correction_bounds_witness:
  "retryLoop (scripted [okResponse (geminiBody (replicate 60 0x3042) (js ''STOP'')),
                        okResponse (geminiBody (replicate 30 0x3042) (js ''MAX_TOKENS'')),
                        okResponse (geminiBody (replicate 80 0x3042) (js ''STOP''))])
       (hd MODEL_CONFIGS) (js ''key'') 0 (replicate 60 0x3042)
       [userTurn (buildUserPrompt (js ''tea''))]
       (afterFirstCall (hd MODEL_CONFIGS) (js ''key'') (buildUserPrompt (js ''tea'')) initial)
     = (Inr (replicate 60 0x3042),
        (afterFirstCall (hd MODEL_CONFIGS) (js ''key'') (buildUserPrompt (js ''tea'')) initial)
          \<lparr>retries := 1,
            calls := [mkRequest (hd MODEL_CONFIGS) (js ''key'') [userTurn (buildUserPrompt (js ''tea''))],
                      mkRequest (hd MODEL_CONFIGS) (js ''key'')
                        ([userTurn (buildUserPrompt (js ''tea''))] @ retryTurns (replicate 60 0x3042))]\<rparr>)
   \<and> length (calls (generate
        (scripted [okResponse (geminiBody (replicate 60 0x3042) (js ''STOP'')),
                   okResponse (geminiBody (replicate 30 0x3042) (js ''MAX_TOKENS'')),
                   okResponse (geminiBody (replicate 80 0x3042) (js ''STOP''))])
        (js ''key'') (js ''tea'') MODEL_CONFIGS)) = 3
   \<and> correctionStep
        (scripted [okResponse (geminiBody (replicate 60 0x3042) (js ''STOP'')),
                   okResponse (geminiBody (replicate 30 0x3042) (js ''MAX_TOKENS'')),
                   okResponse (geminiBody (replicate 80 0x3042) (js ''STOP''))])
        (calls (generate
          (scripted [okResponse (geminiBody (replicate 60 0x3042) (js ''STOP'')),
                     okResponse (geminiBody (replicate 30 0x3042) (js ''MAX_TOKENS'')),
                     okResponse (geminiBody (replicate 80 0x3042) (js ''STOP''))])
          (js ''key'') (js ''tea'') MODEL_CONFIGS)) 1
   \<and> retryLoop (scripted []) (hd MODEL_CONFIGS) (js ''key'') 0 (replicate 80 0x3042)
       [userTurn (buildUserPrompt (js ''tea''))] initial
     = (Inr (replicate 80 0x3042), initial)"
proof -
  let ?fetch = "scripted [okResponse (geminiBody (replicate 60 0x3042) (js ''STOP'')),
                        okResponse (geminiBody (replicate 30 0x3042) (js ''MAX_TOKENS'')),
                        okResponse (geminiBody (replicate 80 0x3042) (js ''STOP''))]"
  let ?cfg = "hd MODEL_CONFIGS" and ?up = "buildUserPrompt (js ''tea'')"
  let ?st = "afterFirstCall ?cfg (js ''key'') ?up initial"
  let ?c = "replicate 60 (0x3042 :: 16 word)"
  let ?r = "\<lparr>resultText = Some (replicate 30 0x3042), finishReason = Str (js ''MAX_TOKENS''),
             rawData = Some (geminiBody (replicate 30 0x3042) (js ''MAX_TOKENS''))\<rparr>"
  let ?g = "generate ?fetch (js ''key'') (js ''tea'') MODEL_CONFIGS"
  have call: "callGemini ?fetch (length (calls ?st)) ?cfg (js ''key'') ([userTurn ?up] @ retryTurns ?c)
      = Inr ?r"
    by (rule callGemini_scripted) (simp_all add: initial_def text_ok finish_reasons_differ)
  have prem: "0 < (3::nat) \<and> \<not> isValidLength ?c
      \<and> callGemini ?fetch (length (calls ?st)) ?cfg (js ''key'') ([userTurn ?up] @ retryTurns ?c) = Inr ?r
      \<and> (\<not> present (resultText ?r) \<or> finishReason ?r = Str (js ''MAX_TOKENS''))"
    using call by (simp add: isValidLength_def)
  note stop = correction_bounds[THEN conjunct2, THEN conjunct2, THEN conjunct2, THEN conjunct2,
      THEN conjunct2, THEN mp, OF prem]
  note wf = correction_bounds[THEN conjunct2, THEN conjunct2, THEN conjunct2, THEN conjunct1,
      of ?fetch "js ''tea''" "js ''key''" MODEL_CONFIGS]
  have calls: "calls ?g =
      [mkRequest ?cfg (js ''key'') [userTurn ?up],
       mkRequest ?cfg (js ''key'') ([userTurn ?up] @ retryTurns ?c),
       mkRequest (MODEL_CONFIGS ! 1) (js ''key'') [userTurn ?up]]"
    by (simp add: run_simps mkRequest_def userTurn_def retryTurns_def)
  have second: "1 < length (calls ?g)" "contents (calls ?g ! 1) \<noteq> [userTurn ?up]"
    by (simp_all add: calls retryTurns_def)
  from wf[unfolded wellFormedTrace_def, rule_format, OF second(1)] second(2)
  have step: "correctionStep ?fetch (calls ?g) 1"
    by blast
  have valid: "3 \<le> (0::nat) \<or> isValidLength (replicate 80 (0x3042 :: 16 word))"
    by (simp add: isValidLength_def)
  note immediate = correction_bounds[THEN conjunct2, THEN conjunct2, THEN conjunct2, THEN conjunct2,
      THEN conjunct1, THEN mp, OF valid]
  show ?thesis
    using stop step immediate by (simp add: calls initial_def)
qed


section \<open>The finish reason\<close>

text \<open>
  C8 (counterexample). The claim: the derived finish signal is always one of the enumerated
  values, and an unrecognized value of the provider maps to UNKNOWN. A response whose
  first candidate has the finish reason \<open>SAFETY\<close> gives \<open>SAFETY\<close> back, which is none of
  the enumerated values, in the spec's spelling or in the provider's.
\<close>

theorem getFinishReason_unrecognized_counterexample:
  "getFinishReason
     (Obj [(js ''candidates'', Arr [Obj [(js ''finishReason'', Str (js ''SAFETY''))]])])
     = Str (js ''SAFETY'')
   \<and> Str (js ''SAFETY'') \<notin> set [Str (js ''COMPLETE''), Str (js ''STOP''), Str (js ''TRUNCATED''),
        Str (js ''MAX_TOKENS''), Str (js ''NOT_FOUND''), Str (js ''UNKNOWN'')]"
  by (simp add: getFinishReason_def js_def)

text \<open>
  C8 (amended). The finish signal is read from the first candidate's \<open>finishReason\<close>: a
  missing or falsy value gives UNKNOWN, and every other value is returned as the provider
  sent it, recognized or not. In general the result is UNKNOWN or the truthy
  \<open>finishReason\<close> of the first candidate.
\<close>

theorem getFinishReason_passthrough:
  "getFinishReason (Obj ((js ''candidates'', Arr (c # cs)) # kvs)) =
     (if truthy (optProp c (js ''finishReason'')) then optProp c (js ''finishReason'')
      else Str (js ''UNKNOWN''))
   \<and> (getFinishReason data = Str (js ''UNKNOWN'')
        \<or> (\<exists>cands first. getProp data (js ''candidates'') = Inr cands
              \<and> getIndex0 cands = Inr first
              \<and> getProp first (js ''finishReason'') = Inr (getFinishReason data)
              \<and> truthy (getFinishReason data)))"
proof
  show "getFinishReason (Obj ((js ''candidates'', Arr (c # cs)) # kvs)) =
     (if truthy (optProp c (js ''finishReason'')) then optProp c (js ''finishReason'')
      else Str (js ''UNKNOWN''))"
    by (simp add: getFinishReason_def Let_def)
next
  show "getFinishReason data = Str (js ''UNKNOWN'')
        \<or> (\<exists>cands first. getProp data (js ''candidates'') = Inr cands
              \<and> getIndex0 cands = Inr first
              \<and> getProp first (js ''finishReason'') = Inr (getFinishReason data)
              \<and> truthy (getFinishReason data))"
  proof (cases "getProp data (js ''candidates'')")
    case (Inl e)
    then show ?thesis by (simp add: getFinishReason_def)
  next
    case cands: (Inr cands)
    show ?thesis
    proof (cases "getIndex0 cands")
      case (Inl e)
      then show ?thesis using cands by (simp add: getFinishReason_def Let_def)
    next
      case first: (Inr first)
      show ?thesis
      proof (cases "getProp first (js ''finishReason'')")
        case (Inl e)
        then show ?thesis using cands first by (simp add: getFinishReason_def Let_def)
      next
        case (Inr fr)
        then show ?thesis using cands first by (simp add: getFinishReason_def Let_def)
      qed
    qed
  qed
qed

theorem getFinishReason_passthrough_witness:
  "getFinishReason (Obj [(js ''candidates'', Arr [Obj [(js ''finishReason'', Str (js ''STOP''))]])])
     = Str (js ''STOP'')
   \<and> getFinishReason (Obj [(js ''candidates'', Arr [Obj []])]) = Str (js ''UNKNOWN'')"
  using getFinishReason_passthrough
          [of "Obj [(js ''finishReason'', Str (js ''STOP''))]" "[]" "[]" Null]
        getFinishReason_passthrough [of "Obj []" "[]" "[]" Null]
  by (simp add: js_def)

end
